theory Spec2Isabelle
  imports Main
begin

section \<open>Go values shared by the packages\<close>

text \<open>
  A Go \<open>error\<close> built by \<open>errors.New\<close> or \<open>fmt.Errorf\<close> is a value that carries its
  message. \<open>Error_msg\<close> is the method \<open>Error()\<close>.
\<close>

datatype error = Error string

fun Error_msg :: "error \<Rightarrow> string" where
  "Error_msg (Error s) = s"

definition errors_New :: "string \<Rightarrow> error" where
  "errors_New s = Error s"

section \<open>Package taskfile of the task engine: ordered variable bindings\<close>

text \<open>
  \<open>taskfile.Var\<close> is used by the executor only through its field \<open>Static\<close>.
  \<open>taskfile.Vars\<close> keeps the keys in insertion order next to the mapping:
  \<^verbatim>\<open>
  type Vars struct { Keys []string; Mapping map[string]Var }
  func (vs *Vars) Set(key string, value Var) {
      if !stringSliceContains(vs.Keys, key) { vs.Keys = append(vs.Keys, key) }
      vs.Mapping[key] = value
  }
  func (vs *Vars) Merge(other *Vars) {
      other.Range(func(key string, value Var) error { vs.Set(key, value); return nil })
  }
  \<close>
  \<open>Range\<close> walks \<open>Keys\<close> in order and reads \<open>Mapping[k]\<close>, which is the zero \<open>Var\<close> for
  a key that the mapping lacks.
\<close>

record Var =
  Static :: string

record Vars =
  Keys :: "string list"
  Mapping :: "string \<rightharpoonup> Var"

definition Vars_empty :: Vars where
  "Vars_empty = \<lparr>Keys = [], Mapping = Map.empty\<rparr>"

definition Var_zero :: Var where
  "Var_zero = \<lparr>Static = []\<rparr>"

definition Vars_Set :: "Vars \<Rightarrow> string \<Rightarrow> Var \<Rightarrow> Vars" where
  "Vars_Set vs key v =
     \<lparr>Keys = (if key \<in> set (Keys vs) then Keys vs else Keys vs @ [key]),
      Mapping = (Mapping vs)(key \<mapsto> v)\<rparr>"

definition Vars_index :: "Vars \<Rightarrow> string \<Rightarrow> Var" where
  "Vars_index vs k = (case Mapping vs k of None \<Rightarrow> Var_zero | Some v \<Rightarrow> v)"

definition Vars_Merge :: "Vars \<Rightarrow> Vars \<Rightarrow> Vars" where
  "Vars_Merge vs other = foldl (\<lambda>acc k. Vars_Set acc k (Vars_index other k)) vs (Keys other)"

section \<open>Package credentials\<close>

record Profile =
  APIKey :: string
  InsightsInsertKey :: string
  Region :: string
  AccountID :: int
  LicenseKey :: string

definition Profile_zero :: Profile where
  "Profile_zero = \<lparr>APIKey = [], InsightsInsertKey = [], Region = [], AccountID = 0,
                    LicenseKey = []\<rparr>"

text \<open>
  The struct \<open>Credentials\<close> is declared beside \<open>profiles.go\<close>; the code read here uses
  its fields \<open>DefaultProfile\<close> and \<open>Profiles\<close> (a Go map from profile name to profile).
\<close>

record Credentials =
  DefaultProfile :: string
  Profiles :: "string \<rightharpoonup> Profile"

text \<open>
  \<open>func (c *Credentials) Default() *Profile\<close>. The receiver is a pointer, through which a
  method can assign to the fields of the credentials, so the model passes the credentials
  through the call: it returns the result together with the credentials as the call
  leaves them. The pointer result is \<open>None\<close> for \<open>nil\<close> and \<open>Some\<close> of the profile value it
  points to otherwise (\<open>&val\<close> points to the copy that the map read made).
\<close>

definition Default_creds :: "Credentials \<Rightarrow> Profile option \<times> Credentials" where
  "Default_creds c =
     (if DefaultProfile c \<noteq> [] then
        (case Profiles c (DefaultProfile c) of
           Some val \<Rightarrow> (Some val, c)
         | None \<Rightarrow> (None, c))
      else (None, c))"

text \<open>The map read \<open>c.Profiles[name]\<close>: the zero profile for a missing key.\<close>

definition Profiles_index :: "Credentials \<Rightarrow> string \<Rightarrow> Profile" where
  "Profiles_index c name = (case Profiles c name of None \<Rightarrow> Profile_zero | Some p \<Rightarrow> p)"

section \<open>Package install: the recipe executor\<close>

record discoveryManifest =
  os :: string
  platform :: string
  platformFamily :: string
  platformVersion :: string
  kernelArch :: string
  kernelVersion :: string

record variableConfig =
  Name :: string
  Prompt :: string
  Default :: string

record recipeFile =
  Install :: string
  InputVars :: "variableConfig list"

text \<open>The fields of \<open>promptui.Prompt\<close> that \<open>setInputVars\<close> fills in.\<close>

record Prompt_ui =
  Label :: string
  Default_ui :: string

text \<open>
  What the executor does to the outside is kept as a trace: each run of a prompt, with the
  declared variable it was run for, the prompt shown and the answer or failure it gave,
  and each run of the task engine with the bindings it received.
\<close>

datatype event =
    Prompted string Prompt_ui "error + string"
  | TaskRun Vars

text \<open>
  The results of the calls that leave the package, for one call of \<open>execute\<close> on a recipe
  \<open>r\<close>: \<open>r.ToRecipeFile()\<close>, \<open>yaml.Marshal\<close>, \<open>ioutil.TempFile\<close> (the name of the file it
  created), \<open>file.Write\<close>, \<open>e.Setup()\<close> (the variables of the task file it read),
  \<open>yaml.Unmarshal\<close>, the globals of \<open>taskargs.ParseV3()\<close>, the credentials handed to the
  callback of \<open>credentials.WithCredentials\<close>, the process environment, \<open>prompt.Run()\<close>
  (which may answer differently depending on what happened before) and \<open>e.Run\<close>, whose
  steps are run in the environment of the process.
\<close>

record world =
  ToRecipeFile :: "error + recipeFile"
  yaml_Marshal :: "string \<Rightarrow> error + string"
  TempFile :: "error + string"
  file_Write :: "string \<Rightarrow> error option"
  Setup :: "string \<Rightarrow> error + Vars"
  yaml_Unmarshal :: "string \<Rightarrow> error option"
  ParseV3_globals :: Vars
  WithCredentials :: Credentials
  environ :: "string \<rightharpoonup> string"
  prompt_Run :: "event list \<Rightarrow> Prompt_ui \<Rightarrow> error + string"
  Run :: "(string \<rightharpoonup> string) \<Rightarrow> Vars \<Rightarrow> error option"

text \<open>\<open>os.Getenv\<close>: the value of the variable, empty when it is not set.\<close>

definition Getenv :: "(string \<rightharpoonup> string) \<Rightarrow> string \<Rightarrow> string" where
  "Getenv env key = (case env key of None \<Rightarrow> [] | Some v \<Rightarrow> v)"

definition setSystemVars :: "Vars \<Rightarrow> discoveryManifest \<Rightarrow> Vars" where
  "setSystemVars t m =
     (let v = Vars_empty;
          v = Vars_Set v ''OS'' \<lparr>Static = os m\<rparr>;
          v = Vars_Set v ''Platform'' \<lparr>Static = platform m\<rparr>;
          v = Vars_Set v ''PlatformFamily'' \<lparr>Static = platformFamily m\<rparr>;
          v = Vars_Set v ''PlatformVersion'' \<lparr>Static = platformVersion m\<rparr>;
          v = Vars_Set v ''KernelArch'' \<lparr>Static = kernelArch m\<rparr>;
          v = Vars_Set v ''KernelVersion'' \<lparr>Static = kernelVersion m\<rparr>
      in Vars_Merge t v)"

text \<open>
  \<open>setInputVars\<close> changes \<open>t.Vars\<close> in place and returns an error or \<open>nil\<close>: the model
  returns the error, the variables as they are left and the trace.
\<close>

fun setInputVars :: "world \<Rightarrow> variableConfig list \<Rightarrow> Vars \<times> event list
                       \<Rightarrow> error option \<times> Vars \<times> event list" where
  "setInputVars w [] (t, tr) = (None, t, tr)"
| "setInputVars w (envConfig # rest) (t, tr) =
     (let v = Vars_empty;
          envValue = Getenv (environ w) (Name envConfig)
      in if envValue = [] then
           (let msg = ''value for '' @ Name envConfig @ '' required'';
                msg = (if Prompt envConfig \<noteq> [] then Prompt envConfig else msg);
                prompt = \<lparr>Label = msg, Default_ui = []\<rparr>;
                prompt = (if Default envConfig \<noteq> []
                          then prompt\<lparr>Default_ui := Default envConfig\<rparr> else prompt);
                res = prompt_Run w tr prompt;
                tr' = tr @ [Prompted (Name envConfig) prompt res]
            in case res of
                 Inl err \<Rightarrow> (Some (Error (''prompt failed: '' @ Error_msg err)), t, tr')
               | Inr result \<Rightarrow>
                   setInputVars w rest
                     (Vars_Merge t (Vars_Set v (Name envConfig) \<lparr>Static = result\<rparr>), tr'))
         else
           setInputVars w rest
             (Vars_Merge t (Vars_Set v (Name envConfig) \<lparr>Static = envValue\<rparr>), tr))"

text \<open>The files on disk and the trace.\<close>

record sys =
  files :: "string set"
  trace :: "event list"

text \<open>The events that a call added to the trace.\<close>

definition new_events :: "sys \<Rightarrow> sys \<Rightarrow> event list" where
  "new_events s s' = drop (length (trace s)) (trace s')"

text \<open>A call of \<open>execute\<close> returns an error or \<open>nil\<close>, or panics.\<close>

datatype outcome = Returned "error option" | Panicked string

text \<open>
  The function literal handed to \<open>credentials.WithCredentials\<close> (lines 71 to 80). It
  assigns \<open>err\<close> of the enclosing call only when the license key is empty, and merges
  \<open>NR_LICENSE_KEY\<close> into \<open>e.Taskfile.Vars\<close> in both cases. \<open>err\<close> is \<open>nil\<close> when the
  literal runs.
\<close>

definition execute_func1 :: "Credentials \<Rightarrow> Vars \<Rightarrow> error option \<times> Vars" where
  "execute_func1 c vars =
     (let v = Vars_empty;
          licenseKey = LicenseKey (Profiles_index c (DefaultProfile c));
          err = (if licenseKey = []
                 then Some (errors_New ''license key not found in default profile'')
                 else None);
          v = Vars_Set v ''NR_LICENSE_KEY'' \<lparr>Static = licenseKey\<rparr>
      in (err, Vars_Merge vars v))"

text \<open>
  The part of \<open>execute\<close> that runs after the deferred removal is registered (lines 46 to
  96), with the rendered content \<open>out\<close> of the task file.
\<close>

definition execute_deferred :: "world \<Rightarrow> discoveryManifest \<Rightarrow> recipeFile \<Rightarrow> string
                                  \<Rightarrow> sys \<Rightarrow> outcome \<times> sys" where
  "execute_deferred w m f out s =
     (case file_Write w out of
        Some err \<Rightarrow> (Returned (Some err), s)
      | None \<Rightarrow>
         (case Setup w out of
            Inl err \<Rightarrow> (Returned (Some err), s)
          | Inr tfvars \<Rightarrow>
             (case yaml_Unmarshal w out of
                Some err \<Rightarrow> (Returned (Some err), s)
              | None \<Rightarrow>
                 (case execute_func1 (WithCredentials w)
                         (Vars_Merge tfvars (ParseV3_globals w)) of
                    (Some err, vars) \<Rightarrow> (Returned (Some err), s)
                  | (None, vars) \<Rightarrow>
                     (case setInputVars w (InputVars f) (setSystemVars vars m, trace s) of
                        (Some err, vars', tr) \<Rightarrow> (Returned (Some err), s\<lparr>trace := tr\<rparr>)
                      | (None, vars', tr) \<Rightarrow>
                          (Returned (Run w (environ w) vars'), s\<lparr>trace := tr @ [TaskRun vars']\<rparr>))))))"

text \<open>
  \<open>execute\<close>. Line 41, \<open>defer os.Remove(file.Name())\<close>, evaluates \<open>file.Name()\<close> when the
  \<open>defer\<close> statement runs, which is before the error of \<open>TempFile\<close> is looked at: when
  \<open>TempFile\<close> failed, \<open>file\<close> is \<open>nil\<close> and reading its name panics. When it succeeded,
  the file exists from then on and is removed when the call returns.
\<close>

definition execute :: "world \<Rightarrow> discoveryManifest \<Rightarrow> sys \<Rightarrow> outcome \<times> sys" where
  "execute w m s =
     (case ToRecipeFile w of
        Inl err \<Rightarrow> (Returned (Some err), s)
      | Inr f \<Rightarrow>
         (case yaml_Marshal w (Install f) of
            Inl err \<Rightarrow> (Returned (Some err), s)
          | Inr out \<Rightarrow>
             (case TempFile w of
                Inl err \<Rightarrow> (Panicked ''invalid memory address or nil pointer dereference'', s)
              | Inr name \<Rightarrow>
                 (case execute_deferred w m f out (s\<lparr>files := insert name (files s)\<rparr>) of
                    (ret, s') \<Rightarrow> (ret, s'\<lparr>files := files s' - {name}\<rparr>)))))"

text \<open>
  The prompt that the specification describes for a declared variable: the label is the
  prompt text, or the generated message when there is none, and the default value is
  filled in.
\<close>

definition spec_prompt :: "variableConfig \<Rightarrow> Prompt_ui" where
  "spec_prompt vc =
     \<lparr>Label = (if Prompt vc \<noteq> [] then Prompt vc
               else ''value for '' @ Name vc @ '' required''),
      Default_ui = Default vc\<rparr>"

section \<open>Package config: \<open>Config.Set\<close>\<close>

text \<open>
  What the package takes from the standard library's Unicode tables: the decoding of the
  UTF-8 sequence at the head of a string that does not start with an ASCII byte (the rune
  and the number of bytes it takes, at least one); whether the fold orbit of a rune,
  walked with \<open>unicode.SimpleFold\<close> as \<open>EqualFold\<close> does, arrives at another rune; and
  \<open>strings.Map(unicode.ToLower, s)\<close> for a string that holds a byte beyond ASCII.
\<close>

record unicode =
  DecodeRuneInString :: "string \<Rightarrow> nat \<times> nat"
  SimpleFold_reaches :: "nat \<Rightarrow> nat \<Rightarrow> bool"
  Map_ToLower :: "string \<Rightarrow> string"

text \<open>
  The first rune of the string \<open>c # s\<close> and the rest of the string, as the loop of
  \<open>strings.EqualFold\<close> takes them: an ASCII byte is its own rune.
\<close>

definition first_rune :: "unicode \<Rightarrow> char \<Rightarrow> string \<Rightarrow> nat \<times> string" where
  "first_rune U c s =
     (if (of_char c :: nat) < 128 then (of_char c, s)
      else (fst (DecodeRuneInString U (c # s)), drop (snd (DecodeRuneInString U (c # s)) - 1) s))"

function EqualFold :: "unicode \<Rightarrow> string \<Rightarrow> string \<Rightarrow> bool" where
  "EqualFold U (s0 # s) (t0 # t) =
     (let sr = fst (first_rune U s0 s); s' = snd (first_rune U s0 s);
          tr = fst (first_rune U t0 t); t' = snd (first_rune U t0 t)
      in if tr = sr then EqualFold U s' t'
         else (let lo = (if tr < sr then tr else sr);
                   hi = (if tr < sr then sr else tr)
               in if hi < 128 then
                    (if 65 \<le> lo \<and> lo \<le> 90 \<and> hi = lo + 32 then EqualFold U s' t' else False)
                  else if SimpleFold_reaches U lo hi then EqualFold U s' t'
                  else False))"
| "EqualFold U [] t = (t = [])"
| "EqualFold U (s0 # s) [] = False"
  by pat_completeness auto
termination
  by (relation "measure (\<lambda>(U, s, t). length s)") (auto simp: first_rune_def less_Suc_eq_le)

fun stringInStrings :: "unicode \<Rightarrow> string \<Rightarrow> string list \<Rightarrow> bool" where
  "stringInStrings U s [] = False"
| "stringInStrings U s (v # ss) = (if EqualFold U v s then True else stringInStrings U s ss)"

text \<open>
  \<open>strings.ToLower\<close>: a string of ASCII bytes is lower-cased byte by byte; any other string
  goes through the Unicode tables.
\<close>

definition toLower :: "char \<Rightarrow> char" where
  "toLower c = (if 65 \<le> (of_char c :: nat) \<and> (of_char c :: nat) \<le> 90
                then char_of ((of_char c :: nat) + 32) else c)"

definition ToLower :: "unicode \<Rightarrow> string \<Rightarrow> string" where
  "ToLower U s = (if list_all (\<lambda>c. (of_char c :: nat) < 128) s then map toLower s
                  else Map_ToLower U s)"

text \<open>
  \<open>struct Config\<close>. Its fourth field, the \<open>viper\<close> handle \<open>cfgViper\<close>, is a pointer: what it
  points to is kept in the state below.
\<close>

record Config =
  LogLevel :: string
  PluginDir :: string
  SendUsageData :: string

text \<open>
  What \<open>reflect\<close> sees of \<open>struct Config\<close>: its fields in declaration order, each with its
  name and its \<open>mapstructure\<close> tag. \<open>NumField\<close> counts every field, exported or not; the
  field \<open>cfgViper\<close> carries no tag, for which \<open>Tag.Get\<close> gives the empty string; a field is
  exported when its name starts with an upper-case letter.
\<close>

record StructField =
  Field_Name :: string
  Field_Tag :: string

definition Config_fields :: "StructField list" where
  "Config_fields =
     [\<lparr>Field_Name = ''LogLevel'', Field_Tag = ''logLevel''\<rparr>,
      \<lparr>Field_Name = ''PluginDir'', Field_Tag = ''pluginDir''\<rparr>,
      \<lparr>Field_Name = ''SendUsageData'', Field_Tag = ''sendUsageData''\<rparr>,
      \<lparr>Field_Name = ''cfgViper'', Field_Tag = []\<rparr>]"

definition exported :: "StructField \<Rightarrow> bool" where
  "exported fld = (case Field_Name fld of [] \<Rightarrow> False
                   | c # cs \<Rightarrow> 65 \<le> (of_char c :: nat) \<and> (of_char c :: nat) \<le> 90)"

text \<open>
  \<open>reflect.ValueOf(cfg).Field(i).Interface()\<close>: the value of the field, and a panic
  (\<open>None\<close>) for a field that is not exported.
\<close>

definition Field_Interface :: "Config \<Rightarrow> StructField \<Rightarrow> string option" where
  "Field_Interface cfg fld =
     (if \<not> exported fld then None
      else if Field_Name fld = ''LogLevel'' then Some (LogLevel cfg)
      else if Field_Name fld = ''PluginDir'' then Some (PluginDir cfg)
      else Some (SendUsageData cfg))"

definition validConfigKeys :: "string list" where
  "validConfigKeys = foldl (\<lambda>keys fld. keys @ [Field_Tag fld]) [] Config_fields"

text \<open>\<open>struct Value\<close>: an instance of a configuration field.\<close>

record Value =
  Value_Name :: string
  Value_Value :: string
  Value_Default :: string

text \<open>
  The calls that leave the package: \<open>viper\<close>'s \<open>Unmarshal\<close> of the settings into the scopes,
  \<open>mergo.Merge\<close> (which changes its first argument in place and may fail), whether
  \<open>os.Stat\<close> finds no configuration file, \<open>os.MkdirAll\<close>, \<open>viper\<close>'s \<open>WriteConfigAs\<close> and
  \<open>WriteConfig\<close>, and the directory found by \<open>init\<close>.
\<close>

record cfg_ext =
  viper_Unmarshal :: "(string \<rightharpoonup> string) \<Rightarrow> error + (string \<rightharpoonup> Config)"
  mergo_Merge :: "Config \<Rightarrow> Config \<Rightarrow> error option \<times> Config"
  Stat_IsNotExist :: bool
  MkdirAll :: "error option"
  WriteConfigAs :: "error option"
  WriteConfig :: "error option"
  DefaultConfigDirectory :: string

text \<open>
  The state that \<open>Set\<close> works on: the settings held by the \<open>viper\<close> handle, as a map from
  the dotted key path to the value, and the settings last written to the configuration
  file by this package, if any.
\<close>

record cfg_sys =
  settings :: "string \<rightharpoonup> string"
  written :: "(string \<rightharpoonup> string) option"

definition globalScopeIdentifier :: string where
  "globalScopeIdentifier = ''*''"

definition defaultConfig :: "cfg_ext \<Rightarrow> Config" where
  "defaultConfig E = \<lparr>LogLevel = ''INFO'', PluginDir = DefaultConfigDirectory E @ ''/plugins'',
                       SendUsageData = ''NOT_ASKED''\<rparr>"

text \<open>\<open>viper.Set\<close> lower-cases the key and stores the value in the handle.\<close>

definition viper_Set :: "unicode \<Rightarrow> cfg_sys \<Rightarrow> string \<Rightarrow> string \<Rightarrow> cfg_sys" where
  "viper_Set U st key val = st\<lparr>settings := (settings st)(ToLower U key \<mapsto> val)\<rparr>"

text \<open>
  \<open>visitAllConfigFields\<close> on the fields that are left to visit. The callback may change the
  state; reading the value of a field that is not exported panics.
\<close>

fun visit_fields :: "(Value \<Rightarrow> 'st \<Rightarrow> error option \<times> 'st) \<Rightarrow> Config \<Rightarrow> Config
                      \<Rightarrow> StructField list \<Rightarrow> 'st \<Rightarrow> outcome \<times> 'st" where
  "visit_fields f cfg dflt [] st = (Returned None, st)"
| "visit_fields f cfg dflt (fld # flds) st =
     (case Field_Interface cfg fld of
        None \<Rightarrow> (Panicked ''reflect.Value.Interface: cannot return value obtained from unexported field or method'', st)
      | Some val \<Rightarrow>
         (case Field_Interface dflt fld of
            None \<Rightarrow> (Panicked ''reflect.Value.Interface: cannot return value obtained from unexported field or method'', st)
          | Some defaultValue \<Rightarrow>
             (case f \<lparr>Value_Name = Field_Tag fld, Value_Value = val,
                       Value_Default = defaultValue\<rparr> st of
                (Some err, st') \<Rightarrow> (Returned (Some err), st')
              | (None, st') \<Rightarrow> visit_fields f cfg dflt flds st')))"

definition visitAllConfigFields :: "cfg_ext \<Rightarrow> (Value \<Rightarrow> 'st \<Rightarrow> error option \<times> 'st) \<Rightarrow> Config
                                      \<Rightarrow> 'st \<Rightarrow> outcome \<times> 'st" where
  "visitAllConfigFields E f cfg st = visit_fields f cfg (defaultConfig E) Config_fields st"

text \<open>How \<open>fmt\<close> prints a slice of strings with \<open>%s\<close>.\<close>

fun join_words :: "string list \<Rightarrow> string" where
  "join_words [] = []"
| "join_words [x] = x"
| "join_words (x # y # ys) = x @ '' '' @ join_words (y # ys)"

definition not_valid_value :: "Value \<Rightarrow> string list \<Rightarrow> error" where
  "not_valid_value v validValues =
     Error ([CHR 0x22] @ Value_Value v @ [CHR 0x22] @ '' is not a valid '' @ Value_Name v
            @ '' value; Please use one of: ['' @ join_words validValues @ '']'')"

text \<open>The callback of \<open>validate\<close>.\<close>

definition validate_field :: "unicode \<Rightarrow> Value \<Rightarrow> unit \<Rightarrow> error option \<times> unit" where
  "validate_field U v st =
     (let k = ToLower U (Value_Name v)
      in if k = ''loglevel'' then
           (let validValues = [''Info'', ''Debug'', ''Trace'', ''Warn'', ''Error'']
            in if \<not> stringInStrings U (Value_Value v) validValues
               then (Some (not_valid_value v validValues), st) else (None, st))
         else if k = ''sendusagedata'' then
           (let validValues = [''NOT_ASKED'', ''DISALLOW'', ''ALLOW'']
            in if \<not> stringInStrings U (Value_Value v) validValues
               then (Some (not_valid_value v validValues), st) else (None, st))
         else (None, st))"

definition validate :: "unicode \<Rightarrow> cfg_ext \<Rightarrow> Config \<Rightarrow> outcome" where
  "validate U E cfg = fst (visitAllConfigFields E (validate_field U) cfg ())"

definition unmarshalAllScopes :: "cfg_ext \<Rightarrow> cfg_sys \<Rightarrow> error + (string \<rightharpoonup> Config)" where
  "unmarshalAllScopes E st =
     (case viper_Unmarshal E (settings st) of
        Inl err \<Rightarrow> Inl (Error (''failed to unmarshal config with error: '' @ Error_msg err))
      | Inr cfgMap \<Rightarrow> Inr cfgMap)"

definition setDefaults :: "cfg_ext \<Rightarrow> Config \<Rightarrow> error option \<times> Config" where
  "setDefaults E cfg = mergo_Merge E cfg (defaultConfig E)"

text \<open>
  \<open>createFile\<close> does not look at what \<open>visitAllConfigFields\<close> returns; a panic in it ends
  the call all the same.
\<close>

definition createFile :: "unicode \<Rightarrow> cfg_ext \<Rightarrow> Config \<Rightarrow> cfg_sys \<Rightarrow> outcome \<times> cfg_sys" where
  "createFile U E c st =
     (case visitAllConfigFields E
             (\<lambda>v st. (None, viper_Set U st (globalScopeIdentifier @ ''.'' @ Value_Name v)
                                (Value_Value v))) c st of
        (Panicked msg, st') \<Rightarrow> (Panicked msg, st')
      | (Returned r, st') \<Rightarrow>
         (case MkdirAll E of
            Some err \<Rightarrow> (Returned (Some err), st')
          | None \<Rightarrow>
             (case WriteConfigAs E of
                Some err \<Rightarrow> (Returned (Some err), st')
              | None \<Rightarrow> (Returned None, st'\<lparr>written := Some (settings st')\<rparr>))))"

text \<open>\<open>func (c *Config) set\<close>, for the string values that \<open>Set\<close> hands to it.\<close>

definition set_cfg :: "unicode \<Rightarrow> cfg_ext \<Rightarrow> Config \<Rightarrow> string \<Rightarrow> string \<Rightarrow> cfg_sys
                         \<Rightarrow> outcome \<times> cfg_sys" where
  "set_cfg U E c key val st0 =
     (let st = viper_Set U st0 (globalScopeIdentifier @ ''.'' @ key) val
      in case unmarshalAllScopes E st of
           Inl err \<Rightarrow> (Returned (Some err), st)
         | Inr allScopes \<Rightarrow>
            (case allScopes globalScopeIdentifier of
               None \<Rightarrow> (Returned (Some (Error ''failed to locate global scope'')), st)
             | Some config \<Rightarrow>
                (case setDefaults E config of
                   (Some err, config') \<Rightarrow> (Returned (Some err), st)
                 | (None, config') \<Rightarrow>
                    (case validate U E config' of
                       Panicked msg \<Rightarrow> (Panicked msg, st)
                     | Returned (Some err) \<Rightarrow> (Returned (Some err), st)
                     | Returned None \<Rightarrow>
                        (if Stat_IsNotExist E then
                           createFile U E c st
                         else
                           (Returned None,
                            (case WriteConfig E of
                               None \<Rightarrow> st\<lparr>written := Some (settings st)\<rparr>
                             | Some err \<Rightarrow> st)))))))"

text \<open>
  \<open>func (c *Config) Set\<close>. What \<open>renderer.Set\<close> prints after a successful \<open>set\<close> is not
  kept.
\<close>

definition Set_cfg :: "unicode \<Rightarrow> cfg_ext \<Rightarrow> Config \<Rightarrow> string \<Rightarrow> string \<Rightarrow> cfg_sys
                         \<Rightarrow> outcome \<times> cfg_sys" where
  "Set_cfg U E c key val st =
     (if \<not> stringInStrings U key validConfigKeys then
        (Returned (Some (Error ([CHR 0x22] @ key @ [CHR 0x22]
                                @ '' is not a valid key; Please use one of: [''
                                @ join_words validConfigKeys @ '']''))), st)
      else
        (case set_cfg U E c key val st of
           (Returned (Some err), st') \<Rightarrow> (Returned (Some err), st')
         | (Returned None, st') \<Rightarrow> (Returned None, st')
         | (Panicked msg, st') \<Rightarrow> (Panicked msg, st')))"

section \<open>Concrete runs\<close>

text \<open>
  A host and a credential store on which every outside call succeeds; the recipe declares
  one input variable, named \<open>OS\<close>, and the environment sets \<open>OS\<close> to \<open>plan9\<close>. Any prompt
  would be aborted.
\<close>

definition linux_host :: discoveryManifest where
  "linux_host = \<lparr>os = ''linux'', platform = ''ubuntu'', platformFamily = ''debian'',
                  platformVersion = ''20.04'', kernelArch = ''x86_64'',
                  kernelVersion = ''5.4.0''\<rparr>"

definition one_profile :: Credentials where
  "one_profile = \<lparr>DefaultProfile = ''default'',
                   Profiles = [''default'' \<mapsto> Profile_zero\<lparr>LicenseKey := ''abc123''\<rparr>]\<rparr>"

definition os_var :: variableConfig where
  "os_var = \<lparr>Name = ''OS'', Prompt = [], Default = []\<rparr>"

definition port_var :: variableConfig where
  "port_var = \<lparr>Name = ''PORT'', Prompt = [], Default = ''8080''\<rparr>"

definition calm_world :: world where
  "calm_world =
     \<lparr>ToRecipeFile = Inr \<lparr>Install = ''tasks'', InputVars = [os_var]\<rparr>,
      yaml_Marshal = (\<lambda>i. Inr i),
      TempFile = Inr ''/tmp/nginx123'',
      file_Write = (\<lambda>out. None),
      Setup = (\<lambda>out. Inr Vars_empty),
      yaml_Unmarshal = (\<lambda>out. None),
      ParseV3_globals = Vars_empty,
      WithCredentials = one_profile,
      environ = [''OS'' \<mapsto> ''plan9''],
      prompt_Run = (\<lambda>tr p. Inl (Error ''^C'')),
      Run = (\<lambda>env vars. None)\<rparr>"

definition fresh_sys :: sys where
  "fresh_sys = \<lparr>files = {}, trace = []\<rparr>"

text \<open>The bindings that the task engine receives in that run.\<close>

definition calm_vars :: Vars where
  "calm_vars =
     Vars_Merge
       (setSystemVars
          (snd (execute_func1 one_profile (Vars_Merge Vars_empty Vars_empty))) linux_host)
       (Vars_Set Vars_empty ''OS'' \<lparr>Static = ''plan9''\<rparr>)"

text \<open>The same run with \<open>OS\<close> unset: the prompt is reached and aborted.\<close>

definition aborting_world :: world where
  "aborting_world = calm_world\<lparr>environ := Map.empty\<rparr>"

text \<open>The same run when the temporary file cannot be created.\<close>

definition no_tmp_world :: world where
  "no_tmp_world = calm_world\<lparr>TempFile := Inl (Error ''open /tmp/nginx123: permission denied'')\<rparr>"


text \<open>The same run with \<open>OS\<close> unset and a prompt that is answered with \<open>beos\<close>.\<close>

definition answering_world :: world where
  "answering_world = calm_world\<lparr>environ := Map.empty, prompt_Run := (\<lambda>tr p. Inr ''beos'')\<rparr>"

definition answered_vars :: Vars where
  "answered_vars =
     Vars_Merge
       (setSystemVars
          (snd (execute_func1 one_profile (Vars_Merge Vars_empty Vars_empty))) linux_host)
       (Vars_Set Vars_empty ''OS'' \<lparr>Static = ''beos''\<rparr>)"

text \<open>Credential stores without a default profile name, and with one that names no profile.\<close>

definition no_default_creds :: Credentials where
  "no_default_creds = one_profile\<lparr>DefaultProfile := []\<rparr>"

definition dangling_creds :: Credentials where
  "dangling_creds = one_profile\<lparr>DefaultProfile := ''staging''\<rparr>"




section \<open>Bindings after \<open>Set\<close> and \<open>Merge\<close>\<close>

lemma Mapping_Vars_Set: "Mapping (Vars_Set vs k v) = (Mapping vs)(k \<mapsto> v)"
  by (simp add: Vars_Set_def)

lemma Mapping_Merge_single:
  "Mapping (Vars_Merge t (Vars_Set Vars_empty k v)) = (Mapping t)(k \<mapsto> v)"
  by (simp add: Vars_Merge_def Vars_Set_def Vars_empty_def Vars_index_def)

lemma Mapping_Vars_Merge:
  "Mapping (Vars_Merge vs other) k =
     (if k \<in> set (Keys other) then Some (Vars_index other k) else Mapping vs k)"
  unfolding Vars_Merge_def
proof (induction "Keys other" arbitrary: vs other rule: rev_induct)
  case Nil
  then show ?case by simp
next
  case (snoc x xs)
  from snoc(2)[symmetric] show ?case
    apply (simp add: Mapping_Vars_Set)
    using snoc(1)[of "other\<lparr>Keys := xs\<rparr>" vs]
    by (simp add: Vars_index_def)
qed

lemma Mapping_setSystemVars:
  "Mapping (setSystemVars t m) =
     (Mapping t)(''OS'' \<mapsto> \<lparr>Static = os m\<rparr>, ''Platform'' \<mapsto> \<lparr>Static = platform m\<rparr>,
        ''PlatformFamily'' \<mapsto> \<lparr>Static = platformFamily m\<rparr>,
        ''PlatformVersion'' \<mapsto> \<lparr>Static = platformVersion m\<rparr>,
        ''KernelArch'' \<mapsto> \<lparr>Static = kernelArch m\<rparr>,
        ''KernelVersion'' \<mapsto> \<lparr>Static = kernelVersion m\<rparr>)"
  by (rule ext)
     (simp add: setSystemVars_def Let_def Mapping_Vars_Merge Vars_Set_def Vars_empty_def
        Vars_index_def)

section \<open>The loop of \<open>setInputVars\<close>\<close>

text \<open>
  One round of the loop, with the prompt written as \<open>spec_prompt\<close>: the two assignments to
  \<open>msg\<close> and the conditional assignment of \<open>prompt.Default\<close> build exactly that prompt.
\<close>

lemma setInputVars_Cons:
  "setInputVars w (vc # rest) (t, tr) =
     (if Getenv (environ w) (Name vc) = [] then
        (case prompt_Run w tr (spec_prompt vc) of
           Inl err \<Rightarrow>
             (Some (Error (''prompt failed: '' @ Error_msg err)), t,
              tr @ [Prompted (Name vc) (spec_prompt vc) (prompt_Run w tr (spec_prompt vc))])
         | Inr result \<Rightarrow>
             setInputVars w rest
               (Vars_Merge t (Vars_Set Vars_empty (Name vc) \<lparr>Static = result\<rparr>),
                tr @ [Prompted (Name vc) (spec_prompt vc) (prompt_Run w tr (spec_prompt vc))]))
      else
        setInputVars w rest
          (Vars_Merge t
             (Vars_Set Vars_empty (Name vc) \<lparr>Static = Getenv (environ w) (Name vc)\<rparr>), tr))"
  by (cases "Prompt vc = []"; cases "Default vc = []")
     (simp_all add: Let_def spec_prompt_def split: sum.splits)

lemma setInputVars_env:
  "Getenv (environ w) (Name vc) \<noteq> [] \<Longrightarrow>
   setInputVars w (vc # rest) (t, tr) =
     setInputVars w rest
       (Vars_Merge t (Vars_Set Vars_empty (Name vc) \<lparr>Static = Getenv (environ w) (Name vc)\<rparr>), tr)"
  by (simp add: setInputVars_Cons del: setInputVars.simps)

lemma setInputVars_prompt_fail:
  "Getenv (environ w) (Name vc) = [] \<Longrightarrow> prompt_Run w tr (spec_prompt vc) = Inl e \<Longrightarrow>
   setInputVars w (vc # rest) (t, tr) =
     (Some (Error (''prompt failed: '' @ Error_msg e)), t,
      tr @ [Prompted (Name vc) (spec_prompt vc) (Inl e)])"
  by (simp add: setInputVars_Cons del: setInputVars.simps)

lemma setInputVars_prompt_ok:
  "Getenv (environ w) (Name vc) = [] \<Longrightarrow> prompt_Run w tr (spec_prompt vc) = Inr x \<Longrightarrow>
   setInputVars w (vc # rest) (t, tr) =
     setInputVars w rest
       (Vars_Merge t (Vars_Set Vars_empty (Name vc) \<lparr>Static = x\<rparr>),
        tr @ [Prompted (Name vc) (spec_prompt vc) (Inr x)])"
  by (simp add: setInputVars_Cons del: setInputVars.simps)

lemma setInputVars_trace:
  "setInputVars w ivs (t, tr) = (err, t', tr') \<Longrightarrow>
   \<exists>evs. tr' = tr @ evs \<and>
     (\<forall>ev \<in> set evs. \<exists>vc \<in> set ivs. Getenv (environ w) (Name vc) = [] \<and>
         (\<exists>r. ev = Prompted (Name vc) (spec_prompt vc) r)) \<and>
     (\<forall>n p e. Prompted n p (Inl e) \<in> set evs \<longrightarrow>
         err = Some (Error (''prompt failed: '' @ Error_msg e)))"
proof (induction ivs arbitrary: t tr)
  case Nil
  then show ?case by simp
next
  case (Cons vc rest)
  show ?case
  proof (cases "Getenv (environ w) (Name vc) = []")
    case False
    from Cons.prems have "setInputVars w rest
       (Vars_Merge t (Vars_Set Vars_empty (Name vc) \<lparr>Static = Getenv (environ w) (Name vc)\<rparr>), tr)
        = (err, t', tr')"
      by (simp only: setInputVars_env[OF False])
    from Cons.IH[OF this] show ?thesis by auto
  next
    case True
    show ?thesis
    proof (cases "prompt_Run w tr (spec_prompt vc)")
      case (Inl e)
      from Cons.prems show ?thesis
        by (simp only: setInputVars_prompt_fail[OF True Inl]) (use True in auto)
    next
      case (Inr x)
      from Cons.prems have "setInputVars w rest
       (Vars_Merge t (Vars_Set Vars_empty (Name vc) \<lparr>Static = x\<rparr>),
        tr @ [Prompted (Name vc) (spec_prompt vc) (Inr x)]) = (err, t', tr')"
        by (simp only: setInputVars_prompt_ok[OF True Inr])
      from Cons.IH[OF this] obtain evs where evs:
        "tr' = (tr @ [Prompted (Name vc) (spec_prompt vc) (Inr x)]) @ evs"
        "\<forall>ev \<in> set evs. \<exists>vc \<in> set rest. Getenv (environ w) (Name vc) = [] \<and>
         (\<exists>r. ev = Prompted (Name vc) (spec_prompt vc) r)"
        "\<forall>n p e. Prompted n p (Inl e) \<in> set evs \<longrightarrow>
         err = Some (Error (''prompt failed: '' @ Error_msg e))"
        by blast
      show ?thesis
        apply (rule exI[of _ "Prompted (Name vc) (spec_prompt vc) (Inr x) # evs"])
        using evs True by auto
    qed
  qed
qed

lemma setInputVars_other:
  "setInputVars w ivs (t, tr) = (err, t', tr') \<Longrightarrow> n \<notin> Name ` set ivs \<Longrightarrow>
   Mapping t' n = Mapping t n"
proof (induction ivs arbitrary: t tr)
  case Nil
  then show ?case by simp
next
  case (Cons vc rest)
  show ?case
  proof (cases "Getenv (environ w) (Name vc) = []")
    case False
    from Cons.prems(1) have "setInputVars w rest
       (Vars_Merge t (Vars_Set Vars_empty (Name vc) \<lparr>Static = Getenv (environ w) (Name vc)\<rparr>), tr)
        = (err, t', tr')"
      by (simp only: setInputVars_env[OF False])
    from Cons.IH[OF this] Cons.prems(2) show ?thesis by (simp add: Mapping_Merge_single)
  next
    case True
    show ?thesis
    proof (cases "prompt_Run w tr (spec_prompt vc)")
      case (Inl e)
      from Cons.prems show ?thesis
        by (simp only: setInputVars_prompt_fail[OF True Inl]) simp
    next
      case (Inr x)
      from Cons.prems have "setInputVars w rest
       (Vars_Merge t (Vars_Set Vars_empty (Name vc) \<lparr>Static = x\<rparr>),
        tr @ [Prompted (Name vc) (spec_prompt vc) (Inr x)]) = (err, t', tr')"
        by (simp only: setInputVars_prompt_ok[OF True Inr])
      from Cons.IH[OF this] Cons.prems(2) show ?thesis by (simp add: Mapping_Merge_single)
    qed
  qed
qed

lemma setInputVars_trace_spec:
  assumes "setInputVars w ivs (t, tr) = (err, t', tr')"
  shows "\<forall>ev \<in> set (drop (length tr) tr'). \<exists>vc \<in> set ivs. Getenv (environ w) (Name vc) = [] \<and>
         (\<exists>r. ev = Prompted (Name vc) (spec_prompt vc) r)"
  using setInputVars_trace[OF assms] by auto

lemma setInputVars_first_prompt:
  assumes e: "Getenv (environ w) (Name vc) = []"
  shows "take (Suc (length tr)) (snd (snd (setInputVars w (vc # rest) (t, tr))))
           = tr @ [Prompted (Name vc) (spec_prompt vc) (prompt_Run w tr (spec_prompt vc))]"
proof -
  let ?p = "spec_prompt vc"
  obtain err t' tr' where r: "setInputVars w (vc # rest) (t, tr) = (err, t', tr')"
    by (cases "setInputVars w (vc # rest) (t, tr)")
  have "\<exists>evs. tr' = tr @ [Prompted (Name vc) ?p (prompt_Run w tr ?p)] @ evs"
  proof (cases "prompt_Run w tr ?p")
    case (Inl x)
    from r show ?thesis by (simp only: setInputVars_prompt_fail[OF e Inl]) (auto simp: Inl)
  next
    case (Inr x)
    from r have "setInputVars w rest
       (Vars_Merge t (Vars_Set Vars_empty (Name vc) \<lparr>Static = x\<rparr>),
        tr @ [Prompted (Name vc) ?p (Inr x)]) = (err, t', tr')"
      by (simp only: setInputVars_prompt_ok[OF e Inr])
    from setInputVars_trace[OF this] show ?thesis by (auto simp: Inr)
  qed
  then obtain evs where "tr' = tr @ [Prompted (Name vc) ?p (prompt_Run w tr ?p)] @ evs" by blast
  with r show ?thesis by simp
qed

lemma setInputVars_env_bound:
  "setInputVars w ivs (t, tr) = (None, t', tr') \<Longrightarrow> Getenv (environ w) n \<noteq> [] \<Longrightarrow>
   n \<in> Name ` set ivs \<or> Mapping t n = Some \<lparr>Static = Getenv (environ w) n\<rparr> \<Longrightarrow>
   Mapping t' n = Some \<lparr>Static = Getenv (environ w) n\<rparr>"
proof (induction ivs arbitrary: t tr)
  case Nil
  then show ?case by simp
next
  case (Cons vc rest)
  show ?case
  proof (cases "Getenv (environ w) (Name vc) = []")
    case False
    let ?t1 = "Vars_Merge t (Vars_Set Vars_empty (Name vc) \<lparr>Static = Getenv (environ w) (Name vc)\<rparr>)"
    from Cons.prems(1) have r: "setInputVars w rest (?t1, tr) = (None, t', tr')"
      by (simp only: setInputVars_env[OF False])
    from Cons.prems(3) have "n \<in> Name ` set rest \<or> Mapping ?t1 n = Some \<lparr>Static = Getenv (environ w) n\<rparr>"
      by (auto simp: Mapping_Merge_single)
    from Cons.IH[OF r Cons.prems(2) this] show ?thesis .
  next
    case True
    with Cons.prems(2) have ne: "Name vc \<noteq> n" by auto
    show ?thesis
    proof (cases "prompt_Run w tr (spec_prompt vc)")
      case (Inl e)
      from Cons.prems(1) show ?thesis
        by (simp only: setInputVars_prompt_fail[OF True Inl]) simp
    next
      case (Inr x)
      let ?t1 = "Vars_Merge t (Vars_Set Vars_empty (Name vc) \<lparr>Static = x\<rparr>)"
      from Cons.prems(1) have r: "setInputVars w rest
         (?t1, tr @ [Prompted (Name vc) (spec_prompt vc) (Inr x)]) = (None, t', tr')"
        by (simp only: setInputVars_prompt_ok[OF True Inr])
      from Cons.prems(3) ne
      have "n \<in> Name ` set rest \<or> Mapping ?t1 n = Some \<lparr>Static = Getenv (environ w) n\<rparr>"
        by (auto simp: Mapping_Merge_single)
      from Cons.IH[OF r Cons.prems(2) this] show ?thesis .
    qed
  qed
qed

lemma setInputVars_texts_unused:
  "Getenv (environ w) k \<noteq> [] \<Longrightarrow>
   setInputVars w (map (\<lambda>x. if Name x = k then x\<lparr>Prompt := pt x, Default := d x\<rparr> else x) ivs)
       (t, tr) = setInputVars w ivs (t, tr)"
proof (induction ivs arbitrary: t tr)
  case Nil
  then show ?case by simp
next
  case (Cons vc rest)
  show ?case
  proof (cases "Name vc = k")
    case True
    with Cons.prems have e: "Getenv (environ w) (Name vc) \<noteq> []" by simp
    then have e': "Getenv (environ w) (Name (vc\<lparr>Prompt := pt vc, Default := d vc\<rparr>)) \<noteq> []" by simp
    show ?thesis
      using True Cons.IH[OF Cons.prems] setInputVars_env[OF e] setInputVars_env[OF e']
      by simp
  next
    case False
    then show ?thesis
      using Cons.IH[OF Cons.prems]
      by (simp add: setInputVars_Cons del: setInputVars.simps split: sum.splits)
  qed
qed

lemma setInputVars_cong:
  assumes "\<And>k. Getenv (environ w1) k = Getenv (environ w2) k"
    and "prompt_Run w1 = prompt_Run w2"
  shows "setInputVars w1 ivs (t, tr) = setInputVars w2 ivs (t, tr)"
proof (induction ivs arbitrary: t tr)
  case Nil
  then show ?case by simp
next
  case (Cons vc rest)
  then show ?case
    by (simp add: setInputVars_Cons assms del: setInputVars.simps split: sum.splits)
qed

lemma Getenv_empty_unset: "Getenv (e(k \<mapsto> [])) n = Getenv (e(k := None)) n"
  by (simp add: Getenv_def)

lemma setInputVars_prompt_bound:
  "setInputVars w ivs (t, tr0 @ evs0) = (None, t', tr') \<Longrightarrow> Getenv (environ w) n = [] \<Longrightarrow>
   n \<in> Name ` set ivs
     \<or> (\<exists>p x. Prompted n p (Inr x) \<in> set evs0 \<and> Mapping t n = Some \<lparr>Static = x\<rparr>) \<Longrightarrow>
   \<exists>p x. Prompted n p (Inr x) \<in> set (drop (length tr0) tr') \<and> Mapping t' n = Some \<lparr>Static = x\<rparr>"
proof (induction ivs arbitrary: t evs0)
  case Nil
  then show ?case by auto
next
  case (Cons vc rest)
  show ?case
  proof (cases "Getenv (environ w) (Name vc) = []")
    case False
    with Cons.prems(2) have ne: "Name vc \<noteq> n" by auto
    let ?t1 = "Vars_Merge t (Vars_Set Vars_empty (Name vc) \<lparr>Static = Getenv (environ w) (Name vc)\<rparr>)"
    from Cons.prems(1) have r: "setInputVars w rest (?t1, tr0 @ evs0) = (None, t', tr')"
      by (simp only: setInputVars_env[OF False])
    from Cons.prems(3) ne have "n \<in> Name ` set rest
       \<or> (\<exists>p x. Prompted n p (Inr x) \<in> set evs0 \<and> Mapping ?t1 n = Some \<lparr>Static = x\<rparr>)"
      by (auto simp: Mapping_Merge_single)
    from Cons.IH[OF r Cons.prems(2) this] show ?thesis .
  next
    case True
    show ?thesis
    proof (cases "prompt_Run w (tr0 @ evs0) (spec_prompt vc)")
      case (Inl e)
      from Cons.prems(1) show ?thesis
        by (simp only: setInputVars_prompt_fail[OF True Inl]) simp
    next
      case (Inr x)
      let ?t1 = "Vars_Merge t (Vars_Set Vars_empty (Name vc) \<lparr>Static = x\<rparr>)"
      let ?evs1 = "evs0 @ [Prompted (Name vc) (spec_prompt vc) (Inr x)]"
      from Cons.prems(1) have "setInputVars w rest
         (?t1, (tr0 @ evs0) @ [Prompted (Name vc) (spec_prompt vc) (Inr x)]) = (None, t', tr')"
        by (simp only: setInputVars_prompt_ok[OF True Inr])
      then have r: "setInputVars w rest (?t1, tr0 @ ?evs1) = (None, t', tr')" by simp
      have "n \<in> Name ` set rest
         \<or> (\<exists>p x. Prompted n p (Inr x) \<in> set ?evs1 \<and> Mapping ?t1 n = Some \<lparr>Static = x\<rparr>)"
      proof (cases "Name vc = n")
        case True
        then show ?thesis by (auto simp: Mapping_Merge_single)
      next
        case False
        with Cons.prems(3) show ?thesis by (auto simp: Mapping_Merge_single)
      qed
      from Cons.IH[OF r Cons.prems(2) this] show ?thesis .
    qed
  qed
qed


lemma setInputVars_append:
  "setInputVars w (pre @ post) (t, tr) =
     (case setInputVars w pre (t, tr) of
        (None, t1, tr1) \<Rightarrow> setInputVars w post (t1, tr1)
      | (Some e, t1, tr1) \<Rightarrow> (Some e, t1, tr1))"
proof (induction pre arbitrary: t tr)
  case Nil
  then show ?case by simp
next
  case (Cons vc rest)
  show ?case
    by (simp add: setInputVars_Cons Cons.IH del: setInputVars.simps split: sum.splits)
qed

lemma Getenv_empty_iff: "Getenv env k = [] \<longleftrightarrow> env k = Some [] \<or> env k = None"
  by (auto simp: Getenv_def split: option.splits)

lemma setInputVars_at_position:
  assumes "Getenv (environ u) (Name vc) = []"
    and "setInputVars u pre (t, tr) = (None, t1, tr1)"
  shows "setInputVars u (pre @ vc # post) (t, tr) =
     (case prompt_Run u tr1 (spec_prompt vc) of
        Inl e \<Rightarrow> (Some (Error (''prompt failed: '' @ Error_msg e)), t1,
                  tr1 @ [Prompted (Name vc) (spec_prompt vc) (Inl e)])
      | Inr x \<Rightarrow> setInputVars u post
                  (Vars_Merge t1 (Vars_Set Vars_empty (Name vc) \<lparr>Static = x\<rparr>),
                   tr1 @ [Prompted (Name vc) (spec_prompt vc) (Inr x)]))"
  using assms
  by (simp add: setInputVars_append setInputVars_Cons del: setInputVars.simps split: sum.splits)

lemma setInputVars_prompted_binding:
  assumes r: "setInputVars u ivs (t, tr) = (None, t', tr')"
    and e: "Getenv (environ u) k = []" and d: "k \<in> Name ` set ivs"
  shows "\<exists>vc \<in> set ivs. \<exists>x. Name vc = k
           \<and> Prompted k (spec_prompt vc) (Inr x) \<in> set (drop (length tr) tr')
           \<and> Mapping t' k = Some \<lparr>Static = x\<rparr>"
proof -
  from r have "setInputVars u ivs (t, tr @ []) = (None, t', tr')" by simp
  from setInputVars_prompt_bound[OF this e] d
  obtain p x where px: "Prompted k p (Inr x) \<in> set (drop (length tr) tr')"
    "Mapping t' k = Some \<lparr>Static = x\<rparr>" by blast
  from setInputVars_trace_spec[OF r] px(1)
  obtain vc r' where "vc \<in> set ivs" "Prompted k p (Inr x) = Prompted (Name vc) (spec_prompt vc) r'"
    by blast
  with px show ?thesis by auto
qed

section \<open>The paths through \<open>execute\<close>\<close>

lemma execute_func1_None:
  "execute_func1 c vars = (None, vars') \<Longrightarrow>
     LicenseKey (Profiles_index c (DefaultProfile c)) \<noteq> [] \<and>
     Mapping vars' = (Mapping vars)(''NR_LICENSE_KEY'' \<mapsto>
        \<lparr>Static = LicenseKey (Profiles_index c (DefaultProfile c))\<rparr>)"
  by (auto simp: execute_func1_def Let_def Mapping_Merge_single split: if_splits)


lemma execute_deferred_files: "files (snd (execute_deferred w m f out s)) = files s"
  by (simp add: execute_deferred_def split: option.splits sum.splits prod.splits)

lemma execute_paths:
  obtains (Quiet) "fst (execute w m s) \<noteq> Returned None"
      "trace (snd (execute w m s)) = trace s"
  | (Reached) f out name tfvars vars err vars' tr where
      "ToRecipeFile w = Inr f" "yaml_Marshal w (Install f) = Inr out"
      "TempFile w = Inr name" "file_Write w out = None" "Setup w out = Inr tfvars"
      "yaml_Unmarshal w out = None"
      "execute_func1 (WithCredentials w) (Vars_Merge tfvars (ParseV3_globals w)) = (None, vars)"
      "setInputVars w (InputVars f) (setSystemVars vars m, trace s) = (err, vars', tr)"
      "fst (execute w m s) = (case err of Some e \<Rightarrow> Returned (Some e)
                                          | None \<Rightarrow> Returned (Run w (environ w) vars'))"
      "trace (snd (execute w m s)) = (case err of Some e \<Rightarrow> tr | None \<Rightarrow> tr @ [TaskRun vars'])"
  by (fastforce simp: execute_def execute_deferred_def
      split: option.splits sum.splits prod.splits)

lemma execute_new_events:
  obtains (Quiet) "fst (execute w m s) \<noteq> Returned None" "new_events s (snd (execute w m s)) = []"
  | (Failed) e evs where "fst (execute w m s) = Returned (Some e)"
      "new_events s (snd (execute w m s)) = evs"
      "\<forall>ev \<in> set evs. \<exists>n p r. ev = Prompted n p r"
      "\<forall>n p e'. Prompted n p (Inl e') \<in> set evs \<longrightarrow> e = Error (''prompt failed: '' @ Error_msg e')"
  | (Ran) evs vars where "fst (execute w m s) = Returned (Run w (environ w) vars)"
      "new_events s (snd (execute w m s)) = evs @ [TaskRun vars]"
      "\<forall>ev \<in> set evs. \<exists>n p x. ev = Prompted n p (Inr x)"
proof (cases rule: execute_paths[of w m s])
  case Quiet
  then show ?thesis by (intro that(1)) (simp_all add: new_events_def)
next
  case (Reached f out name tfvars vars err vars' tr)
  from setInputVars_trace[OF Reached(8)] obtain evs where evs: "tr = trace s @ evs"
    "\<forall>ev \<in> set evs. \<exists>vc \<in> set (InputVars f). Getenv (environ w) (Name vc) = [] \<and>
         (\<exists>r. ev = Prompted (Name vc) (spec_prompt vc) r)"
    "\<forall>n p e. Prompted n p (Inl e) \<in> set evs \<longrightarrow>
         err = Some (Error (''prompt failed: '' @ Error_msg e))"
    by blast
  show ?thesis
  proof (cases err)
    case None
    have "\<forall>ev \<in> set evs. \<exists>n p x. ev = Prompted n p (Inr x)"
    proof
      fix ev assume ev: "ev \<in> set evs"
      with evs(2) obtain n p r where r: "ev = Prompted n p r" by blast
      show "\<exists>n p x. ev = Prompted n p (Inr x)"
      proof (cases r)
        case (Inl e)
        with r ev evs(3) None show ?thesis by auto
      next
        case (Inr x)
        with r show ?thesis by blast
      qed
    qed
    with None Reached(9,10) evs(1) show ?thesis
      by (intro that(3)[of vars' evs]) (simp_all add: new_events_def)
  next
    case (Some e)
    with Reached(9,10) evs show ?thesis
      by (intro that(2)[of e evs]) (auto simp: new_events_def)
  qed
qed

lemma trace_fresh_sys: "trace fresh_sys = []"
  by (simp add: fresh_sys_def)

lemma aborting_run:
  "execute aborting_world linux_host fresh_sys =
     (Returned (Some (Error ''prompt failed: ^C'')),
      \<lparr>files = {}, trace = [Prompted ''OS'' (spec_prompt os_var) (Inl (Error ''^C''))]\<rparr>)"
  by (simp add: execute_def execute_deferred_def aborting_world_def calm_world_def fresh_sys_def
      one_profile_def os_var_def execute_func1_def Profiles_index_def Profile_zero_def
      Getenv_def Let_def errors_New_def spec_prompt_def)

lemma execute_files_reached:
  assumes "ToRecipeFile w = Inr f" "yaml_Marshal w (Install f) = Inr out" "TempFile w = Inr name"
  shows "files (snd (execute w m s)) = files s - {name}"
proof -
  obtain ret s' where d: "execute_deferred w m f out (s\<lparr>files := insert name (files s)\<rparr>) = (ret, s')"
    by (cases "execute_deferred w m f out (s\<lparr>files := insert name (files s)\<rparr>)")
  have "files (snd (execute_deferred w m f out (s\<lparr>files := insert name (files s)\<rparr>)))
          = insert name (files s)"
    by (simp add: execute_deferred_files)
  with d have "files s' = insert name (files s)" by simp
  with assms d show ?thesis by (simp add: execute_def)
qed

lemma execute_files:
  "files (snd (execute w m s)) =
     (case ToRecipeFile w of Inl err \<Rightarrow> files s | Inr f \<Rightarrow>
        (case yaml_Marshal w (Install f) of Inl err \<Rightarrow> files s | Inr out \<Rightarrow>
           (case TempFile w of Inl err \<Rightarrow> files s | Inr name \<Rightarrow> files s - {name})))"
proof (cases "ToRecipeFile w")
  case (Inl e)
  then show ?thesis by (simp add: execute_def)
next
  case f: (Inr f)
  show ?thesis
  proof (cases "yaml_Marshal w (Install f)")
    case (Inl e)
    with f show ?thesis by (simp add: execute_def)
  next
    case out: (Inr out)
    show ?thesis
    proof (cases "TempFile w")
      case (Inl e)
      with f out show ?thesis by (simp add: execute_def)
    next
      case (Inr name)
      with f out execute_files_reached[OF f out Inr, of m s] show ?thesis by simp
    qed
  qed
qed

lemma execute_run_bindings:
  assumes "TaskRun v \<in> set (new_events s (snd (execute w m s)))"
  obtains f tfvars out vars evs where
    "ToRecipeFile w = Inr f"
    "execute_func1 (WithCredentials w) (Vars_Merge tfvars (ParseV3_globals w)) = (None, vars)"
    "setInputVars w (InputVars f) (setSystemVars vars m, trace s) = (None, v, trace s @ evs)"
    "new_events s (snd (execute w m s)) = evs @ [TaskRun v]"
proof (cases rule: execute_paths[of w m s])
  case Quiet
  with assms show ?thesis by (simp add: new_events_def)
next
  case (Reached f out name tfvars vars err vars' tr)
  from setInputVars_trace[OF Reached(8)] obtain evs where evs: "tr = trace s @ evs"
    "\<forall>ev \<in> set evs. \<exists>vc \<in> set (InputVars f). Getenv (environ w) (Name vc) = [] \<and>
         (\<exists>r. ev = Prompted (Name vc) (spec_prompt vc) r)"
    by blast
  show ?thesis
  proof (cases err)
    case None
    with Reached(10) evs(1) have ne: "new_events s (snd (execute w m s)) = evs @ [TaskRun vars']"
      by (simp add: new_events_def)
    with assms evs(2) have "v = vars'" by auto
    with Reached(1,7,8) None evs(1) ne show ?thesis by (intro that[of f tfvars vars evs]) simp_all
  next
    case (Some e)
    with Reached(10) evs(1) have "new_events s (snd (execute w m s)) = evs"
      by (simp add: new_events_def)
    with assms evs(2) show ?thesis by auto
  qed
qed

section \<open>The concrete runs, evaluated\<close>

lemma calm_run:
  "execute calm_world linux_host fresh_sys =
     (Returned None, \<lparr>files = {}, trace = [TaskRun calm_vars]\<rparr>)"
  by (simp add: execute_def execute_deferred_def calm_world_def fresh_sys_def calm_vars_def
      one_profile_def os_var_def execute_func1_def Profiles_index_def Profile_zero_def
      Getenv_def Let_def errors_New_def)

lemma answering_run:
  "execute answering_world linux_host fresh_sys =
     (Returned None,
      \<lparr>files = {},
       trace = [Prompted ''OS'' (spec_prompt os_var) (Inr ''beos''), TaskRun answered_vars]\<rparr>)"
  by (simp add: execute_def execute_deferred_def answering_world_def calm_world_def fresh_sys_def
      answered_vars_def one_profile_def os_var_def execute_func1_def Profiles_index_def
      Profile_zero_def Getenv_def Let_def errors_New_def spec_prompt_def)

lemma calm_vars_OS: "Mapping calm_vars ''OS'' = Some \<lparr>Static = ''plan9''\<rparr>"
  by (simp add: calm_vars_def Mapping_Merge_single)

lemma Getenv_aborting: "Getenv (environ aborting_world) k = []"
  by (simp add: aborting_world_def Getenv_def)

lemma port_prompt_run:
  "setInputVars aborting_world [port_var] (Vars_empty, []) =
     (Some (Error ''prompt failed: ^C''), Vars_empty,
      [Prompted ''PORT'' \<lparr>Label = ''value for PORT required'', Default_ui = ''8080''\<rparr>
         (Inl (Error ''^C''))])"
  by (simp add: aborting_world_def calm_world_def port_var_def Getenv_def Let_def)

lemma calm_input_run:
  "setInputVars calm_world [os_var] (Vars_empty, []) =
     (None, Vars_Merge Vars_empty (Vars_Set Vars_empty ''OS'' \<lparr>Static = ''plan9''\<rparr>), [])"
  by (simp add: calm_world_def os_var_def Getenv_def Let_def)


lemma answering_input_run:
  "setInputVars answering_world [os_var] (Vars_empty, []) =
     (None, Vars_Merge Vars_empty (Vars_Set Vars_empty ''OS'' \<lparr>Static = ''beos''\<rparr>),
      [Prompted ''OS'' \<lparr>Label = ''value for OS required'', Default_ui = []\<rparr> (Inr ''beos'')])"
  by (simp add: answering_world_def calm_world_def os_var_def Getenv_def Let_def)

section \<open>\<open>Config.Set\<close>: the guard, the store and the panic\<close>

lemma validConfigKeys_eq: "validConfigKeys = [''logLevel'', ''pluginDir'', ''sendUsageData'', []]"
  by (simp add: validConfigKeys_def Config_fields_def)

lemma visit_fields_Config_not_nil:
  "fst (visit_fields f cfg dflt Config_fields st) \<noteq> Returned None"
  by (simp add: Config_fields_def Field_Interface_def exported_def
      split: prod.splits option.splits)

lemma validate_not_nil: "validate U E cfg \<noteq> Returned None"
  by (simp add: validate_def visitAllConfigFields_def visit_fields_Config_not_nil)

lemma set_cfg_stores_first:
  "settings (snd (set_cfg U E c key val st)) = (settings st)(ToLower U (''*.'' @ key) \<mapsto> val)
   \<and> written (snd (set_cfg U E c key val st)) = written st
   \<and> fst (set_cfg U E c key val st) \<noteq> Returned None"
  using validate_not_nil[of U E]
  by (auto simp: set_cfg_def viper_Set_def globalScopeIdentifier_def Let_def
      split: sum.splits option.splits prod.splits outcome.splits)

lemma ToLower_star_dot: "ToLower U ''*.'' = ''*.''"
  by (simp add: ToLower_def toLower_def)

text \<open>
  A key that the guard rejects leaves the state as it is. A key that passes the guard
  never makes \<open>Set\<close> return \<open>nil\<close>: \<open>validate\<close> walks on to the field \<open>cfgViper\<close>, which is
  not exported, and panics there unless a value was found invalid before. A key that
  differs from a field name only in the case of its ASCII letters passes the guard.
\<close>

lemma Set_cfg_rejected:
  "\<not> stringInStrings U key validConfigKeys \<Longrightarrow>
   (\<exists>err. fst (Set_cfg U E c key val st) = Returned (Some err)) \<and> snd (Set_cfg U E c key val st) = st"
  by (simp add: Set_cfg_def)

lemma Set_cfg_never_nil: "fst (Set_cfg U E c key val st) \<noteq> Returned None"
  using set_cfg_stores_first[of U E c key val st]
  by (auto simp: Set_cfg_def split: prod.splits outcome.splits option.splits)

lemma Set_cfg_case_variants:
  "stringInStrings U ''LOGLEVEL'' validConfigKeys" "stringInStrings U ''plugindir'' validConfigKeys"
  "stringInStrings U ''SendUsageData'' validConfigKeys"
  "\<not> stringInStrings U ''logLevels'' validConfigKeys"
  by (simp_all add: validConfigKeys_eq first_rune_def Let_def)

lemma Set_cfg_valid_key_panics:
  assumes "stringInStrings U key validConfigKeys"
    and "viper_Unmarshal E (settings (viper_Set U st (''*.'' @ key) val)) = Inr scopes"
    and "scopes ''*'' = Some cfg"
    and "mergo_Merge E cfg (defaultConfig E) = (None, cfg')"
    and "stringInStrings U (LogLevel cfg') [''Info'', ''Debug'', ''Trace'', ''Warn'', ''Error'']"
    and "stringInStrings U (SendUsageData cfg') [''NOT_ASKED'', ''DISALLOW'', ''ALLOW'']"
  shows "fst (Set_cfg U E c key val st) = Panicked
           ''reflect.Value.Interface: cannot return value obtained from unexported field or method''"
proof -
  have m: "map toLower ''logLevel'' = ''loglevel''" "map toLower ''pluginDir'' = ''plugindir''"
    "map toLower ''sendUsageData'' = ''sendusagedata''"
    by code_simp+
  have t: "ToLower U ''logLevel'' = ''loglevel''" "ToLower U ''pluginDir'' = ''plugindir''"
    "ToLower U ''sendUsageData'' = ''sendusagedata''"
    by (simp_all add: ToLower_def m del: list.map)
  have v: "validate U E cfg' = Panicked
      ''reflect.Value.Interface: cannot return value obtained from unexported field or method''"
    using assms(5,6)
    by (simp add: validate_def visitAllConfigFields_def Config_fields_def Field_Interface_def
        exported_def defaultConfig_def validate_field_def t Let_def
        del: stringInStrings.simps)
  from assms(1-4) v show ?thesis
    by (simp add: Set_cfg_def set_cfg_def unmarshalAllScopes_def setDefaults_def
        globalScopeIdentifier_def Let_def)
qed

lemma of_char_toLower:
  "(of_char (toLower c) :: nat) =
     (if 65 \<le> (of_char c :: nat) \<and> (of_char c :: nat) \<le> 90 then of_char c + 32 else of_char c)"
proof (cases "65 \<le> (of_char c :: nat) \<and> (of_char c :: nat) \<le> 90")
  case True
  then have "((of_char c :: nat) + 32) mod 256 = of_char c + 32" by simp
  with True show ?thesis by (simp add: toLower_def)
next
  case False
  then show ?thesis by (auto simp: toLower_def)
qed

lemma toLower_eq_cases:
  assumes "toLower a = toLower b" "(of_char a :: nat) < of_char b" "(of_char b :: nat) < 128"
  shows "65 \<le> (of_char a :: nat) \<and> (of_char a :: nat) \<le> 90
         \<and> (of_char b :: nat) = of_char a + 32"
proof -
  from assms(1) have "(of_char (toLower a) :: nat) = of_char (toLower b)" by simp
  then have "(if 65 \<le> (of_char a :: nat) \<and> (of_char a :: nat) \<le> 90 then of_char a + 32 else of_char a)
    = (if 65 \<le> (of_char b :: nat) \<and> (of_char b :: nat) \<le> 90 then of_char b + 32 else (of_char b :: nat))"
    by (simp only: of_char_toLower)
  with assms(2) show ?thesis by (simp split: if_splits)
qed

lemma EqualFold_case_variant:
  "list_all (\<lambda>c. (of_char c :: nat) < 128) s \<Longrightarrow> list_all (\<lambda>c. (of_char c :: nat) < 128) t \<Longrightarrow>
   map toLower s = map toLower t \<Longrightarrow> EqualFold U s t"
proof (induction U s t rule: EqualFold.induct)
  case (1 U s0 s t0 t)
  from "1.prems"(1,2) have a: "(of_char s0 :: nat) < 128" "(of_char t0 :: nat) < 128"
    and ar: "list_all (\<lambda>c. (of_char c :: nat) < 128) s" "list_all (\<lambda>c. (of_char c :: nat) < 128) t"
    by simp_all
  from "1.prems"(3) have tl: "toLower s0 = toLower t0" and rest: "map toLower s = map toLower t"
    by simp_all
  from a have fr: "first_rune U s0 s = (of_char s0, s)" "first_rune U t0 t = (of_char t0, t)"
    by (simp_all add: first_rune_def)
  show ?case
  proof (cases "(of_char t0 :: nat) = of_char s0")
    case True
    with "1.IH"(1)[OF refl refl refl refl] fr ar rest show ?thesis by (simp add: Let_def)
  next
    case False
    show ?thesis
    proof (cases "(of_char t0 :: nat) < of_char s0")
      case True
      from toLower_eq_cases[OF tl[symmetric] True a(1)] have
        c: "65 \<le> (of_char t0 :: nat) \<and> (of_char t0 :: nat) \<le> 90 \<and> (of_char s0 :: nat) = of_char t0 + 32" .
      have "EqualFold U s t"
        using "1.IH"(2)[OF refl refl refl refl] fr ar rest False True a c by (simp add: Let_def)
      with fr False True a c show ?thesis by (simp add: Let_def)
    next
      case nlt: False
      with False have lt: "(of_char s0 :: nat) < of_char t0" by linarith
      from toLower_eq_cases[OF tl lt a(2)] have
        c: "65 \<le> (of_char s0 :: nat) \<and> (of_char s0 :: nat) \<le> 90 \<and> (of_char t0 :: nat) = of_char s0 + 32" .
      have "EqualFold U s t"
        using "1.IH"(2)[OF refl refl refl refl] fr ar rest False nlt a c by (simp add: Let_def)
      with fr False nlt a c show ?thesis by (simp add: Let_def)
    qed
  qed
qed simp_all

lemma stringInStrings_case_variant:
  "v \<in> set ss \<Longrightarrow> list_all (\<lambda>c. (of_char c :: nat) < 128) v \<Longrightarrow>
   list_all (\<lambda>c. (of_char c :: nat) < 128) key \<Longrightarrow> map toLower v = map toLower key \<Longrightarrow>
   stringInStrings U key ss"
  by (induction ss) (auto simp: EqualFold_case_variant)

section \<open>Properties of the executor, the credentials and the configuration\<close>

text \<open>
  C1, as the code has it. \<open>execute\<close> merges the license key, then the system facts, then
  the declared input variables, and each merge overwrites. So in the bindings that the task
  engine receives, each of \<open>OS\<close>, \<open>Platform\<close>, \<open>PlatformFamily\<close>, \<open>PlatformVersion\<close>,
  \<open>KernelArch\<close>, \<open>KernelVersion\<close> and \<open>NR_LICENSE_KEY\<close> holds its system value when the
  recipe declares no input variable of that name; a declared input variable, also one that
  carries one of these names, is bound to its environment value when that is not empty and
  to the answer of a prompt run for it otherwise.
\<close>

theorem system_bindings_unless_declared:
  assumes "ToRecipeFile w = Inr f"
    and "TaskRun v \<in> set (new_events s (snd (execute w m s)))"
  shows "(\<forall>(n, x) \<in> set [(''OS'', os m), (''Platform'', platform m),
              (''PlatformFamily'', platformFamily m), (''PlatformVersion'', platformVersion m),
              (''KernelArch'', kernelArch m), (''KernelVersion'', kernelVersion m),
              (''NR_LICENSE_KEY'',
               LicenseKey (Profiles_index (WithCredentials w) (DefaultProfile (WithCredentials w))))].
            n \<notin> Name ` set (InputVars f) \<longrightarrow> Mapping v n = Some \<lparr>Static = x\<rparr>)
       \<and> (\<forall>n \<in> Name ` set (InputVars f).
            if Getenv (environ w) n \<noteq> []
            then Mapping v n = Some \<lparr>Static = Getenv (environ w) n\<rparr>
            else (\<exists>p x. Prompted n p (Inr x) \<in> set (new_events s (snd (execute w m s)))
                        \<and> Mapping v n = Some \<lparr>Static = x\<rparr>))"
proof -
  from assms(2) obtain f' tfvars out vars evs where
    f': "ToRecipeFile w = Inr f'" and
    c: "execute_func1 (WithCredentials w) (Vars_Merge tfvars (ParseV3_globals w)) = (None, vars)" and
    r: "setInputVars w (InputVars f') (setSystemVars vars m, trace s) = (None, v, trace s @ evs)" and
    ne: "new_events s (snd (execute w m s)) = evs @ [TaskRun v]"
    by (rule execute_run_bindings)
  from f' assms(1) have ff: "f' = f" by simp
  note k = execute_func1_None[OF c]
  have sysm: "Mapping (setSystemVars vars m) =
     (Mapping vars)(''OS'' \<mapsto> \<lparr>Static = os m\<rparr>, ''Platform'' \<mapsto> \<lparr>Static = platform m\<rparr>,
        ''PlatformFamily'' \<mapsto> \<lparr>Static = platformFamily m\<rparr>,
        ''PlatformVersion'' \<mapsto> \<lparr>Static = platformVersion m\<rparr>,
        ''KernelArch'' \<mapsto> \<lparr>Static = kernelArch m\<rparr>,
        ''KernelVersion'' \<mapsto> \<lparr>Static = kernelVersion m\<rparr>)"
    by (rule Mapping_setSystemVars)
  have part1: "n \<notin> Name ` set (InputVars f) \<Longrightarrow> Mapping v n = Mapping (setSystemVars vars m) n" for n
    using setInputVars_other[OF r] ff by simp
  have part2: "Mapping v n = Some \<lparr>Static = Getenv (environ w) n\<rparr>"
    if "n \<in> Name ` set (InputVars f)" "Getenv (environ w) n \<noteq> []" for n
    using setInputVars_env_bound[OF r that(2)] that(1) ff by simp
  have part3: "\<exists>p x. Prompted n p (Inr x) \<in> set (new_events s (snd (execute w m s)))
                        \<and> Mapping v n = Some \<lparr>Static = x\<rparr>"
    if "n \<in> Name ` set (InputVars f)" "Getenv (environ w) n = []" for n
  proof -
    from r have "setInputVars w (InputVars f') (setSystemVars vars m, trace s @ []) = (None, v, trace s @ evs)"
      by simp
    from setInputVars_prompt_bound[OF this that(2)] that(1) ff
    show ?thesis by (auto simp: ne)
  qed
  show ?thesis
  proof (intro conjI)
    show "\<forall>(n, x) \<in> set [(''OS'', os m), (''Platform'', platform m),
              (''PlatformFamily'', platformFamily m), (''PlatformVersion'', platformVersion m),
              (''KernelArch'', kernelArch m), (''KernelVersion'', kernelVersion m),
              (''NR_LICENSE_KEY'',
               LicenseKey (Profiles_index (WithCredentials w) (DefaultProfile (WithCredentials w))))].
            n \<notin> Name ` set (InputVars f) \<longrightarrow> Mapping v n = Some \<lparr>Static = x\<rparr>"
      using part1 k by (simp add: sysm)
    show "\<forall>n \<in> Name ` set (InputVars f).
            if Getenv (environ w) n \<noteq> []
            then Mapping v n = Some \<lparr>Static = Getenv (environ w) n\<rparr>
            else (\<exists>p x. Prompted n p (Inr x) \<in> set (new_events s (snd (execute w m s)))
                        \<and> Mapping v n = Some \<lparr>Static = x\<rparr>)"
      using part2 part3 by (metis (no_types, lifting))
  qed
qed

theorem system_bindings_unless_declared_witness:
  "ToRecipeFile calm_world = Inr \<lparr>Install = ''tasks'', InputVars = [os_var]\<rparr>
   \<and> TaskRun calm_vars \<in> set (new_events fresh_sys (snd (execute calm_world linux_host fresh_sys)))
   \<and> ''Platform'' \<notin> Name ` set [os_var]
   \<and> Mapping calm_vars ''Platform'' = Some \<lparr>Static = ''ubuntu''\<rparr>
   \<and> Mapping calm_vars ''NR_LICENSE_KEY'' = Some \<lparr>Static = ''abc123''\<rparr>
   \<and> ''OS'' \<in> Name ` set [os_var]
   \<and> Getenv (environ calm_world) ''OS'' \<noteq> []
   \<and> Mapping calm_vars ''OS'' = Some \<lparr>Static = ''plan9''\<rparr>
   \<and> ToRecipeFile answering_world = Inr \<lparr>Install = ''tasks'', InputVars = [os_var]\<rparr>
   \<and> TaskRun answered_vars
       \<in> set (new_events fresh_sys (snd (execute answering_world linux_host fresh_sys)))
   \<and> Getenv (environ answering_world) ''OS'' = []
   \<and> (\<exists>p x. Prompted ''OS'' p (Inr x)
               \<in> set (new_events fresh_sys (snd (execute answering_world linux_host fresh_sys)))
            \<and> Mapping answered_vars ''OS'' = Some \<lparr>Static = x\<rparr>)"
proof -
  have a1: "ToRecipeFile calm_world = Inr \<lparr>Install = ''tasks'', InputVars = [os_var]\<rparr>"
    by (simp add: calm_world_def)
  have a2: "TaskRun calm_vars
      \<in> set (new_events fresh_sys (snd (execute calm_world linux_host fresh_sys)))"
    by (simp add: calm_run new_events_def trace_fresh_sys)
  have b1: "ToRecipeFile answering_world = Inr \<lparr>Install = ''tasks'', InputVars = [os_var]\<rparr>"
    by (simp add: answering_world_def calm_world_def)
  have b2: "TaskRun answered_vars
      \<in> set (new_events fresh_sys (snd (execute answering_world linux_host fresh_sys)))"
    by (simp add: answering_run new_events_def trace_fresh_sys)
  have n1: "''Platform'' \<notin> Name ` set [os_var]" "''NR_LICENSE_KEY'' \<notin> Name ` set [os_var]"
    "''OS'' \<in> Name ` set [os_var]"
    by (simp_all add: os_var_def)
  have g1: "Getenv (environ calm_world) ''OS'' = ''plan9''"
    by (simp add: calm_world_def Getenv_def)
  have g2: "Getenv (environ answering_world) ''OS'' = []"
    by (simp add: answering_world_def Getenv_def)
  have k: "LicenseKey (Profiles_index (WithCredentials calm_world)
             (DefaultProfile (WithCredentials calm_world))) = ''abc123''"
    by (simp add: calm_world_def one_profile_def Profiles_index_def Profile_zero_def)
  note A = system_bindings_unless_declared[OF a1 a2]
  note B = system_bindings_unless_declared[OF b1 b2]
  from A n1 have c1: "Mapping calm_vars ''Platform'' = Some \<lparr>Static = ''ubuntu''\<rparr>"
    by (simp add: linux_host_def)
  from A n1 k have c2: "Mapping calm_vars ''NR_LICENSE_KEY'' = Some \<lparr>Static = ''abc123''\<rparr>"
    by simp
  from A n1 g1 have c3: "Mapping calm_vars ''OS'' = Some \<lparr>Static = ''plan9''\<rparr>"
    by simp
  from B n1 g2 have c4: "\<exists>p x. Prompted ''OS'' p (Inr x)
               \<in> set (new_events fresh_sys (snd (execute answering_world linux_host fresh_sys)))
            \<and> Mapping answered_vars ''OS'' = Some \<lparr>Static = x\<rparr>"
    by simp
  from a1 a2 b1 b2 n1 g1 g2 c1 c2 c3 c4 show ?thesis by simp
qed

text \<open>
  C1, as stated, fails: with a declared input variable \<open>OS\<close> and \<open>OS=plan9\<close> in the
  environment, on a host whose manifest says \<open>linux\<close>, the task engine receives
  \<open>OS = plan9\<close>.
\<close>

theorem declared_OS_overrides_system_OS:
  "TaskRun calm_vars \<in> set (new_events fresh_sys (snd (execute calm_world linux_host fresh_sys)))
   \<and> Mapping calm_vars ''OS'' \<noteq> Some \<lparr>Static = os linux_host\<rparr>
   \<and> Mapping calm_vars ''OS'' = Some \<lparr>Static = ''plan9''\<rparr>"
proof -
  have a: "TaskRun calm_vars
      \<in> set (new_events fresh_sys (snd (execute calm_world linux_host fresh_sys)))"
    by (simp add: calm_run new_events_def trace_fresh_sys)
  have b: "os linux_host = ''linux''"
    by (simp add: linux_host_def)
  from a b calm_vars_OS show ?thesis by simp
qed

text \<open>
  C2. For a declared input variable whose environment variable is set and not empty: when
  \<open>setInputVars\<close> returns \<open>nil\<close> the variable is bound to the environment value; no prompt
  is run for it, whether or not the call succeeds; and the prompt text and default value of
  the variables of that name can be replaced by anything without changing the result.
\<close>

theorem env_value_used_without_prompt:
  assumes "vc \<in> set ivs" and "Getenv (environ w) (Name vc) \<noteq> []"
  shows "(fst (setInputVars w ivs (t, tr)) = None \<longrightarrow>
            Mapping (fst (snd (setInputVars w ivs (t, tr)))) (Name vc)
              = Some \<lparr>Static = Getenv (environ w) (Name vc)\<rparr>)
       \<and> (\<forall>p r. Prompted (Name vc) p r
              \<notin> set (drop (length tr) (snd (snd (setInputVars w ivs (t, tr))))))
       \<and> setInputVars w
            (map (\<lambda>x. if Name x = Name vc then x\<lparr>Prompt := pt x, Default := d x\<rparr> else x) ivs)
            (t, tr) = setInputVars w ivs (t, tr)"
proof (intro conjI impI allI)
  obtain err t' tr' where r: "setInputVars w ivs (t, tr) = (err, t', tr')"
    by (cases "setInputVars w ivs (t, tr)")
  {
    assume "fst (setInputVars w ivs (t, tr)) = None"
    with r have "setInputVars w ivs (t, tr) = (None, t', tr')" by simp
    from setInputVars_env_bound[OF this assms(2)] assms(1) r
    show "Mapping (fst (snd (setInputVars w ivs (t, tr)))) (Name vc)
              = Some \<lparr>Static = Getenv (environ w) (Name vc)\<rparr>"
      by simp
  }
  {
    fix p r'
    from setInputVars_trace_spec[OF r] assms(2) r
    show "Prompted (Name vc) p r'
              \<notin> set (drop (length tr) (snd (snd (setInputVars w ivs (t, tr)))))"
      by fastforce
  }
  show "setInputVars w
            (map (\<lambda>x. if Name x = Name vc then x\<lparr>Prompt := pt x, Default := d x\<rparr> else x) ivs)
            (t, tr) = setInputVars w ivs (t, tr)"
    by (rule setInputVars_texts_unused[OF assms(2)])
qed

theorem env_value_used_without_prompt_witness:
  "os_var \<in> set [os_var] \<and> Getenv (environ calm_world) (Name os_var) \<noteq> []
   \<and> fst (setInputVars calm_world [os_var] (Vars_empty, [])) = None
   \<and> Mapping (fst (snd (setInputVars calm_world [os_var] (Vars_empty, [])))) (Name os_var)
       = Some \<lparr>Static = ''plan9''\<rparr>
   \<and> (\<forall>p r. Prompted (Name os_var) p r
         \<notin> set (drop (length ([] :: event list))
                  (snd (snd (setInputVars calm_world [os_var] (Vars_empty, []))))))
   \<and> setInputVars calm_world
        (map (\<lambda>x. if Name x = Name os_var
                   then x\<lparr>Prompt := ''Which system?'', Default := ''linux''\<rparr> else x) [os_var])
        (Vars_empty, []) = setInputVars calm_world [os_var] (Vars_empty, [])"
proof -
  have h1: "os_var \<in> set [os_var]" by simp
  have g: "Getenv (environ calm_world) (Name os_var) = ''plan9''"
    by (simp add: calm_world_def os_var_def Getenv_def)
  then have h2: "Getenv (environ calm_world) (Name os_var) \<noteq> []" by simp
  have h3: "fst (setInputVars calm_world [os_var] (Vars_empty, [])) = None"
    by (simp add: calm_input_run del: setInputVars.simps)
  from env_value_used_without_prompt[OF h1 h2, where t = Vars_empty and tr = "[]"
      and pt = "\<lambda>x. ''Which system?''" and d = "\<lambda>x. ''linux''"] h1 h2 h3 g
  show ?thesis by (simp del: setInputVars.simps)
qed

text \<open>
  C3. Whenever a prompt that \<open>execute\<close> ran for a declared input variable failed or was
  aborted, \<open>execute\<close> returns the error \<open>prompt failed: ...\<close> built from the prompt's
  failure, and the task engine was not run in that call.
\<close>

theorem failed_prompt_fails_recipe:
  assumes "Prompted n p (Inl e) \<in> set (new_events s (snd (execute w m s)))"
  shows "fst (execute w m s) = Returned (Some (Error (''prompt failed: '' @ Error_msg e)))
         \<and> (\<forall>vars. TaskRun vars \<notin> set (new_events s (snd (execute w m s))))"
proof (cases rule: execute_new_events[of w m s])
  case Quiet
  with assms show ?thesis by simp
next
  case (Failed e' evs)
  with assms show ?thesis by auto
next
  case (Ran evs vars)
  with assms show ?thesis by auto
qed

theorem failed_prompt_fails_recipe_witness:
  "Prompted ''OS'' (spec_prompt os_var) (Inl (Error ''^C''))
     \<in> set (new_events fresh_sys (snd (execute aborting_world linux_host fresh_sys)))
   \<and> fst (execute aborting_world linux_host fresh_sys)
       = Returned (Some (Error ''prompt failed: ^C''))
   \<and> (\<forall>vars. TaskRun vars
         \<notin> set (new_events fresh_sys (snd (execute aborting_world linux_host fresh_sys))))"
proof -
  have h: "Prompted ''OS'' (spec_prompt os_var) (Inl (Error ''^C''))
     \<in> set (new_events fresh_sys (snd (execute aborting_world linux_host fresh_sys)))"
    by (simp add: aborting_run new_events_def trace_fresh_sys)
  from failed_prompt_fails_recipe[OF h] h show ?thesis by simp
qed




text \<open>
  C5. Setting an environment variable \<open>k\<close> to the empty string and leaving it unset give the
  same result of \<open>setInputVars\<close> (error, bindings and trace) and the same trace of
  \<open>execute\<close> (prompts, and bindings handed to the task engine), and the same outcome of
  \<open>execute\<close> when the task engine itself answers alike in the two environments. In either case a declared variable named \<open>k\<close>, at any position
  that the loop reaches, is prompted for with its prompt text (or the generated message)
  and its default: a failed prompt ends the resolution with the error, an answer is bound
  and the loop goes on; and when the resolution succeeds, \<open>k\<close> is bound to the answer of
  such a prompt.
\<close>

theorem empty_env_value_is_unset:
  "setInputVars (w\<lparr>environ := (environ w)(k \<mapsto> [])\<rparr>) ivs (t, tr)
     = setInputVars (w\<lparr>environ := (environ w)(k := None)\<rparr>) ivs (t, tr)
   \<and> trace (snd (execute (w\<lparr>environ := (environ w)(k \<mapsto> [])\<rparr>) m s))
     = trace (snd (execute (w\<lparr>environ := (environ w)(k := None)\<rparr>) m s))
   \<and> ((\<forall>vars. Run w ((environ w)(k \<mapsto> [])) vars = Run w ((environ w)(k := None)) vars)
        \<longrightarrow> fst (execute (w\<lparr>environ := (environ w)(k \<mapsto> [])\<rparr>) m s)
            = fst (execute (w\<lparr>environ := (environ w)(k := None)\<rparr>) m s))
   \<and> ((environ u k = Some [] \<or> environ u k = None) \<and> Name vc = k
        \<and> setInputVars u pre (t, tr) = (None, t1, tr1)
        \<longrightarrow> setInputVars u (pre @ vc # post) (t, tr)
            = (let prompt = \<lparr>Label = (if Prompt vc \<noteq> [] then Prompt vc
                                       else ''value for '' @ k @ '' required''),
                              Default_ui = Default vc\<rparr>
               in case prompt_Run u tr1 prompt of
                    Inl e \<Rightarrow> (Some (Error (''prompt failed: '' @ Error_msg e)), t1,
                              tr1 @ [Prompted k prompt (Inl e)])
                  | Inr x \<Rightarrow> setInputVars u post
                              (Vars_Merge t1 (Vars_Set Vars_empty k \<lparr>Static = x\<rparr>),
                               tr1 @ [Prompted k prompt (Inr x)])))
   \<and> ((environ u k = Some [] \<or> environ u k = None) \<and> k \<in> Name ` set ivs
        \<and> setInputVars u ivs (t, tr) = (None, t', tr')
        \<longrightarrow> (\<exists>vc \<in> set ivs. \<exists>x. Name vc = k
              \<and> Prompted k \<lparr>Label = (if Prompt vc \<noteq> [] then Prompt vc
                                       else ''value for '' @ k @ '' required''),
                              Default_ui = Default vc\<rparr> (Inr x)
                  \<in> set (drop (length tr) tr')
              \<and> Mapping t' k = Some \<lparr>Static = x\<rparr>))"
proof (intro conjI impI)
  let ?w1 = "w\<lparr>environ := (environ w)(k \<mapsto> [])\<rparr>"
  let ?w2 = "w\<lparr>environ := (environ w)(k := None)\<rparr>"
  have eq: "setInputVars ?w1 ivs' (t', tr') = setInputVars ?w2 ivs' (t', tr')" for ivs' t' tr'
    by (rule setInputVars_cong) (simp_all add: Getenv_empty_unset)
  show "setInputVars ?w1 ivs (t, tr) = setInputVars ?w2 ivs (t, tr)" by (rule eq)
  have d1: "snd (execute_deferred ?w1 m f out s') = snd (execute_deferred ?w2 m f out s')" for f out s'
    by (simp add: execute_deferred_def eq split: option.splits sum.splits prod.splits)
  have d1': "execute_deferred ?w1 m f out s' = (r1, s1) \<Longrightarrow> execute_deferred ?w2 m f out s' = (r2, s2)
      \<Longrightarrow> s1 = s2" for f out s' r1 s1 r2 s2
    using d1[of f out s'] by simp
  have "snd (execute ?w1 m s) = snd (execute ?w2 m s)"
    by (auto simp: execute_def split: sum.splits prod.splits dest: d1')
  then show "trace (snd (execute ?w1 m s)) = trace (snd (execute ?w2 m s))"
    by simp
  {
    assume run: "\<forall>vars. Run w ((environ w)(k \<mapsto> [])) vars = Run w ((environ w)(k := None)) vars"
    have "execute_deferred ?w1 m f out s' = execute_deferred ?w2 m f out s'" for f out s'
      by (simp add: execute_deferred_def eq run split: option.splits sum.splits prod.splits)
    then have "execute ?w1 m s = execute ?w2 m s"
      by (simp add: execute_def split: sum.splits prod.splits)
    then show "fst (execute ?w1 m s) = fst (execute ?w2 m s)"
      by simp
  }
  {
    assume a: "(environ u k = Some [] \<or> environ u k = None) \<and> Name vc = k
        \<and> setInputVars u pre (t, tr) = (None, t1, tr1)"
    then have g: "Getenv (environ u) (Name vc) = []" by (simp add: Getenv_empty_iff)
    from a setInputVars_at_position[OF g, of pre t tr t1 tr1 post]
    show "setInputVars u (pre @ vc # post) (t, tr)
            = (let prompt = \<lparr>Label = (if Prompt vc \<noteq> [] then Prompt vc
                                       else ''value for '' @ k @ '' required''),
                              Default_ui = Default vc\<rparr>
               in case prompt_Run u tr1 prompt of
                    Inl e \<Rightarrow> (Some (Error (''prompt failed: '' @ Error_msg e)), t1,
                              tr1 @ [Prompted k prompt (Inl e)])
                  | Inr x \<Rightarrow> setInputVars u post
                              (Vars_Merge t1 (Vars_Set Vars_empty k \<lparr>Static = x\<rparr>),
                               tr1 @ [Prompted k prompt (Inr x)]))"
      by (auto simp: spec_prompt_def Let_def simp del: setInputVars.simps split: sum.splits)
  }
  {
    assume a: "(environ u k = Some [] \<or> environ u k = None) \<and> k \<in> Name ` set ivs
        \<and> setInputVars u ivs (t, tr) = (None, t', tr')"
    then have g: "Getenv (environ u) k = []" by (simp add: Getenv_empty_iff)
    from a have r: "setInputVars u ivs (t, tr) = (None, t', tr')" and d: "k \<in> Name ` set ivs"
      by simp_all
    from setInputVars_prompted_binding[OF r g d]
    show "\<exists>vc \<in> set ivs. \<exists>x. Name vc = k
              \<and> Prompted k \<lparr>Label = (if Prompt vc \<noteq> [] then Prompt vc
                                       else ''value for '' @ k @ '' required''),
                              Default_ui = Default vc\<rparr> (Inr x)
                  \<in> set (drop (length tr) tr')
              \<and> Mapping t' k = Some \<lparr>Static = x\<rparr>"
      by (auto simp: spec_prompt_def)
  }
qed

theorem empty_env_value_is_unset_witness:
  "(\<forall>vars. Run calm_world ((environ calm_world)(''OS'' \<mapsto> [])) vars
            = Run calm_world ((environ calm_world)(''OS'' := None)) vars)
   \<and> fst (execute (calm_world\<lparr>environ := (environ calm_world)(''OS'' \<mapsto> [])\<rparr>)
             linux_host fresh_sys)
     = fst (execute (calm_world\<lparr>environ := (environ calm_world)(''OS'' := None)\<rparr>)
             linux_host fresh_sys)
   \<and> (environ answering_world ''OS'' = Some [] \<or> environ answering_world ''OS'' = None)
   \<and> Name os_var = ''OS''
   \<and> setInputVars answering_world [] (Vars_empty, []) = (None, Vars_empty, [])
   \<and> setInputVars answering_world ([] @ os_var # []) (Vars_empty, [])
       = (None, Vars_Merge Vars_empty (Vars_Set Vars_empty ''OS'' \<lparr>Static = ''beos''\<rparr>),
          [Prompted ''OS'' \<lparr>Label = ''value for OS required'', Default_ui = []\<rparr> (Inr ''beos'')])
   \<and> ''OS'' \<in> Name ` set [os_var]
   \<and> (\<exists>vc \<in> set [os_var]. \<exists>x. Name vc = ''OS''
         \<and> Prompted ''OS'' \<lparr>Label = (if Prompt vc \<noteq> [] then Prompt vc
                                      else ''value for '' @ ''OS'' @ '' required''),
                             Default_ui = Default vc\<rparr> (Inr x)
             \<in> set (drop (length ([] :: event list))
                      [Prompted ''OS'' \<lparr>Label = ''value for OS required'', Default_ui = []\<rparr>
                         (Inr ''beos'')])
         \<and> Mapping (Vars_Merge Vars_empty (Vars_Set Vars_empty ''OS'' \<lparr>Static = ''beos''\<rparr>)) ''OS''
             = Some \<lparr>Static = x\<rparr>)"
proof -
  note T = empty_env_value_is_unset[where w = calm_world and k = "''OS''" and m = linux_host
      and s = fresh_sys and u = answering_world and vc = os_var and pre = "[]" and post = "[]"
      and t = Vars_empty and tr = "[]" and ?t1.0 = Vars_empty and ?tr1.0 = "[]"
      and ivs = "[os_var]"
      and t' = "Vars_Merge Vars_empty (Vars_Set Vars_empty ''OS'' \<lparr>Static = ''beos''\<rparr>)"
      and tr' = "[Prompted ''OS'' \<lparr>Label = ''value for OS required'', Default_ui = []\<rparr>
                    (Inr ''beos'')]"]
  have h1: "\<forall>vars. Run calm_world ((environ calm_world)(''OS'' \<mapsto> [])) vars
            = Run calm_world ((environ calm_world)(''OS'' := None)) vars"
    by (simp add: calm_world_def)
  have h2: "environ answering_world ''OS'' = Some [] \<or> environ answering_world ''OS'' = None"
    by (simp add: answering_world_def)
  have h3: "Name os_var = ''OS''" by (simp add: os_var_def)
  have h4: "setInputVars answering_world [] (Vars_empty, []) = (None, Vars_empty, [])" by simp
  have h5: "''OS'' \<in> Name ` set [os_var]" by (simp add: os_var_def)
  note h6 = answering_input_run
  from T h1 have c1: "fst (execute (calm_world\<lparr>environ := (environ calm_world)(''OS'' \<mapsto> [])\<rparr>)
             linux_host fresh_sys)
     = fst (execute (calm_world\<lparr>environ := (environ calm_world)(''OS'' := None)\<rparr>)
             linux_host fresh_sys)"
    by blast
  have c2: "setInputVars answering_world ([] @ os_var # []) (Vars_empty, [])
       = (None, Vars_Merge Vars_empty (Vars_Set Vars_empty ''OS'' \<lparr>Static = ''beos''\<rparr>),
          [Prompted ''OS'' \<lparr>Label = ''value for OS required'', Default_ui = []\<rparr> (Inr ''beos'')])"
    using h6 by (simp del: setInputVars.simps)
  from T h2 h5 h6 have c3: "\<exists>vc \<in> set [os_var]. \<exists>x. Name vc = ''OS''
         \<and> Prompted ''OS'' \<lparr>Label = (if Prompt vc \<noteq> [] then Prompt vc
                                      else ''value for '' @ ''OS'' @ '' required''),
                             Default_ui = Default vc\<rparr> (Inr x)
             \<in> set (drop (length ([] :: event list))
                      [Prompted ''OS'' \<lparr>Label = ''value for OS required'', Default_ui = []\<rparr>
                         (Inr ''beos'')])
         \<and> Mapping (Vars_Merge Vars_empty (Vars_Set Vars_empty ''OS'' \<lparr>Static = ''beos''\<rparr>)) ''OS''
             = Some \<lparr>Static = x\<rparr>"
    by blast
  from h1 h2 h3 h4 h5 c1 c2 c3 show ?thesis by blast
qed

text \<open>
  C6. A call of \<open>execute\<close> leaves no file behind that was not there before: the files
  after the call are among the files before it, and the temporary task file that the call
  created is not among them, whichever way the call ends.
\<close>

theorem task_file_removed:
  "files (snd (execute w m s)) \<subseteq> files s
   \<and> (\<forall>f out name. ToRecipeFile w = Inr f \<and> yaml_Marshal w (Install f) = Inr out
          \<and> TempFile w = Inr name \<longrightarrow> name \<notin> files (snd (execute w m s)))"
  by (auto simp: execute_files split: sum.splits)

theorem task_file_removed_witness:
  "ToRecipeFile calm_world = Inr \<lparr>Install = ''tasks'', InputVars = [os_var]\<rparr>
   \<and> yaml_Marshal calm_world (Install \<lparr>Install = ''tasks'', InputVars = [os_var]\<rparr>) = Inr ''tasks''
   \<and> TempFile calm_world = Inr ''/tmp/nginx123''
   \<and> ''/tmp/nginx123'' \<notin> files (snd (execute calm_world linux_host fresh_sys))
   \<and> files (snd (execute calm_world linux_host fresh_sys)) \<subseteq> files fresh_sys"
proof -
  have r: "ToRecipeFile calm_world = Inr \<lparr>Install = ''tasks'', InputVars = [os_var]\<rparr>
   \<and> yaml_Marshal calm_world (Install \<lparr>Install = ''tasks'', InputVars = [os_var]\<rparr>) = Inr ''tasks''
   \<and> TempFile calm_world = Inr ''/tmp/nginx123''"
    by (simp add: calm_world_def)
  from task_file_removed[of calm_world linux_host fresh_sys] r show ?thesis by blast
qed

text \<open>
  C7. A declared input variable whose environment value is empty is prompted for with the
  label \<open>Prompt\<close> when that is not empty and \<open>value for <name> required\<close> otherwise, and
  with its \<open>Default\<close> as the default of the prompt (empty when there is none); and every
  prompt that \<open>setInputVars\<close> runs is of that form for one of the declared variables.
\<close>

theorem prompt_label_and_default:
  "(Getenv (environ w) (Name vc) = [] \<longrightarrow>
      take (Suc (length tr)) (snd (snd (setInputVars w (vc # rest) (t, tr))))
        = tr @ [Prompted (Name vc)
                  \<lparr>Label = (if Prompt vc \<noteq> [] then Prompt vc
                            else ''value for '' @ Name vc @ '' required''),
                   Default_ui = Default vc\<rparr>
                  (prompt_Run w tr
                     \<lparr>Label = (if Prompt vc \<noteq> [] then Prompt vc
                               else ''value for '' @ Name vc @ '' required''),
                      Default_ui = Default vc\<rparr>)])
   \<and> (\<forall>n p r. Prompted n p r \<in> set (drop (length tr) (snd (snd (setInputVars w ivs (t, tr)))))
        \<longrightarrow> (\<exists>vc \<in> set ivs. Getenv (environ w) (Name vc) = [] \<and> n = Name vc
              \<and> Label p = (if Prompt vc \<noteq> [] then Prompt vc
                            else ''value for '' @ Name vc @ '' required'')
              \<and> Default_ui p = Default vc))"
proof (intro conjI impI allI)
  assume e: "Getenv (environ w) (Name vc) = []"
  from setInputVars_first_prompt[OF e, of tr rest t]
  show "take (Suc (length tr)) (snd (snd (setInputVars w (vc # rest) (t, tr))))
        = tr @ [Prompted (Name vc)
                  \<lparr>Label = (if Prompt vc \<noteq> [] then Prompt vc
                            else ''value for '' @ Name vc @ '' required''),
                   Default_ui = Default vc\<rparr>
                  (prompt_Run w tr
                     \<lparr>Label = (if Prompt vc \<noteq> [] then Prompt vc
                               else ''value for '' @ Name vc @ '' required''),
                      Default_ui = Default vc\<rparr>)]"
    by (simp add: spec_prompt_def del: setInputVars.simps)
next
  fix n p r
  assume a: "Prompted n p r \<in> set (drop (length tr) (snd (snd (setInputVars w ivs (t, tr)))))"
  obtain err t' tr' where r: "setInputVars w ivs (t, tr) = (err, t', tr')"
    by (cases "setInputVars w ivs (t, tr)")
  from setInputVars_trace_spec[OF r] a r
  obtain vc where "vc \<in> set ivs" "Getenv (environ w) (Name vc) = []"
     "\<exists>r'. Prompted n p r = Prompted (Name vc) (spec_prompt vc) r'"
    by fastforce
  then show "\<exists>vc \<in> set ivs. Getenv (environ w) (Name vc) = [] \<and> n = Name vc
              \<and> Label p = (if Prompt vc \<noteq> [] then Prompt vc
                            else ''value for '' @ Name vc @ '' required'')
              \<and> Default_ui p = Default vc"
    by (auto simp: spec_prompt_def)
qed

theorem prompt_label_and_default_witness:
  "Getenv (environ aborting_world) (Name port_var) = []
   \<and> take (Suc (length ([] :: event list)))
        (snd (snd (setInputVars aborting_world (port_var # []) (Vars_empty, []))))
      = [] @ [Prompted ''PORT'' \<lparr>Label = ''value for PORT required'', Default_ui = ''8080''\<rparr>
               (Inl (Error ''^C''))]
   \<and> Prompted ''PORT'' \<lparr>Label = ''value for PORT required'', Default_ui = ''8080''\<rparr>
        (Inl (Error ''^C''))
       \<in> set (drop (length ([] :: event list))
                (snd (snd (setInputVars aborting_world [port_var] (Vars_empty, [])))))
   \<and> (\<exists>vc \<in> set [port_var]. Getenv (environ aborting_world) (Name vc) = []
         \<and> ''PORT'' = Name vc
         \<and> Label \<lparr>Label = ''value for PORT required'', Default_ui = ''8080''\<rparr>
             = (if Prompt vc \<noteq> [] then Prompt vc else ''value for '' @ Name vc @ '' required'')
         \<and> Default_ui \<lparr>Label = ''value for PORT required'', Default_ui = ''8080''\<rparr>
             = Default vc)"
proof -
  note T = prompt_label_and_default[where w = aborting_world and vc = port_var
      and tr = "[]" and rest = "[]" and t = Vars_empty and ivs = "[port_var]"]
  have h1: "Getenv (environ aborting_world) (Name port_var) = []"
    by (rule Getenv_aborting)
  have h2: "Prompted ''PORT'' \<lparr>Label = ''value for PORT required'', Default_ui = ''8080''\<rparr>
        (Inl (Error ''^C''))
       \<in> set (drop (length ([] :: event list))
                (snd (snd (setInputVars aborting_world [port_var] (Vars_empty, [])))))"
    by (simp add: port_prompt_run del: setInputVars.simps)
  have c1: "take (Suc (length ([] :: event list)))
        (snd (snd (setInputVars aborting_world (port_var # []) (Vars_empty, []))))
      = [] @ [Prompted ''PORT'' \<lparr>Label = ''value for PORT required'', Default_ui = ''8080''\<rparr>
               (Inl (Error ''^C''))]"
    by (simp add: port_prompt_run del: setInputVars.simps)
  from T h2 have c2: "\<exists>vc \<in> set [port_var]. Getenv (environ aborting_world) (Name vc) = []
         \<and> ''PORT'' = Name vc
         \<and> Label \<lparr>Label = ''value for PORT required'', Default_ui = ''8080''\<rparr>
             = (if Prompt vc \<noteq> [] then Prompt vc else ''value for '' @ Name vc @ '' required'')
         \<and> Default_ui \<lparr>Label = ''value for PORT required'', Default_ui = ''8080''\<rparr>
             = Default vc"
    by blast
  from h1 h2 c1 c2 show ?thesis by blast
qed

text \<open>
  C8. When \<open>ioutil.TempFile\<close> fails, \<open>execute\<close> does not return the error: the deferred
  removal reads the name of the \<open>nil\<close> file first, and the call panics.
\<close>

theorem TempFile_failure_panics:
  "execute no_tmp_world linux_host fresh_sys =
     (Panicked ''invalid memory address or nil pointer dereference'', fresh_sys)"
  by (simp add: execute_def no_tmp_world_def calm_world_def)

text \<open>
  C9. \<open>Credentials.Default\<close> gives the profile stored under \<open>DefaultProfile\<close> when that
  name is not empty and is a key of \<open>Profiles\<close>, and \<open>nil\<close> when the name is empty or names
  no profile; in every case the credentials are after the call what they were before it.
\<close>

theorem Default_creds_result:
  "(DefaultProfile c \<noteq> [] \<and> Profiles c (DefaultProfile c) = Some p
      \<longrightarrow> fst (Default_creds c) = Some p)
   \<and> (DefaultProfile c = [] \<or> Profiles c (DefaultProfile c) = None
      \<longrightarrow> fst (Default_creds c) = None)
   \<and> snd (Default_creds c) = c"
  by (auto simp: Default_creds_def split: option.splits)

theorem Default_creds_result_witness:
  "DefaultProfile one_profile \<noteq> []
   \<and> Profiles one_profile (DefaultProfile one_profile)
       = Some (Profile_zero\<lparr>LicenseKey := ''abc123''\<rparr>)
   \<and> fst (Default_creds one_profile) = Some (Profile_zero\<lparr>LicenseKey := ''abc123''\<rparr>)
   \<and> snd (Default_creds one_profile) = one_profile
   \<and> DefaultProfile no_default_creds = []
   \<and> fst (Default_creds no_default_creds) = None
   \<and> snd (Default_creds no_default_creds) = no_default_creds
   \<and> Profiles dangling_creds (DefaultProfile dangling_creds) = None
   \<and> fst (Default_creds dangling_creds) = None
   \<and> snd (Default_creds dangling_creds) = dangling_creds"
proof -
  have h1: "DefaultProfile one_profile \<noteq> []
      \<and> Profiles one_profile (DefaultProfile one_profile)
          = Some (Profile_zero\<lparr>LicenseKey := ''abc123''\<rparr>)"
    by (simp add: one_profile_def)
  have h2: "DefaultProfile no_default_creds = []"
    by (simp add: no_default_creds_def)
  have h3: "Profiles dangling_creds (DefaultProfile dangling_creds) = None"
    by (simp add: dangling_creds_def one_profile_def)
  from Default_creds_result[of one_profile "Profile_zero\<lparr>LicenseKey := ''abc123''\<rparr>"]
    Default_creds_result[of no_default_creds] Default_creds_result[of dangling_creds] h1 h2 h3
  show ?thesis by simp
qed

text \<open>
  C10. The empty key passes the guard of \<open>Config.Set\<close>, whatever the Unicode tables
  hold: \<open>validConfigKeys\<close> contains the empty tag of the field \<open>cfgViper\<close>. So \<open>Set\<close> goes on
  to \<open>set\<close>, and the value is stored under \<open>*.\<close> in the settings of the \<open>viper\<close> handle.
\<close>

theorem Set_cfg_accepts_empty_key:
  "stringInStrings U [] validConfigKeys
   \<and> Set_cfg U E c [] val st = set_cfg U E c [] val st
   \<and> settings (snd (Set_cfg U E c [] val st)) = (settings st)(''*.'' \<mapsto> val)"
proof -
  have g: "stringInStrings U [] validConfigKeys"
    by (simp add: validConfigKeys_eq)
  then have e: "Set_cfg U E c [] val st = set_cfg U E c [] val st"
    by (simp add: Set_cfg_def split: prod.splits outcome.splits option.splits)
  from set_cfg_stores_first[of U E c "[]" val st] ToLower_star_dot[of U]
  have "settings (snd (set_cfg U E c [] val st)) = (settings st)(''*.'' \<mapsto> val)"
    by simp
  with g e show ?thesis by simp
qed

end
